theory Spec2Isabelle
  imports Complex_Main
begin

section \<open>Python values\<close>

text \<open>
  The cells of a report table hold \<open>None\<close>, an \<open>int\<close>, a \<open>float\<close> or a \<open>str\<close>
  (the four results of \<open>BaseReportParser._normalize_value\<close>).

  Floats are the binary64 values of the interpreter: a finite float is given by the real
  number it denotes, and every conversion and every arithmetic operation rounds the exact
  result to the nearest binary64 value (\<open>round64\<close> below), ties to the even significand, a
  result beyond the range becoming an infinity. The zero has no sign: \<open>0.0\<close> and \<open>-0.0\<close>,
  which are equal in every comparison of the source, are one value here.

  Strings are lists of 8-bit characters, read as the code points 0 to 255.
\<close>

datatype pyfloat = Fin real | PInf | NInf | NaN

datatype pyval = PyNone | PyInt int | PyFloat pyfloat | PyStr string

datatype py_error = TypeError | ValueError | ZeroDivisionError | IndexError | OverflowError

subsection \<open>Rounding to binary64\<close>

text \<open>The number of binary digits of a natural number.\<close>

fun bit_length :: "nat \<Rightarrow> nat" where
  "bit_length n = (if n = 0 then 0 else Suc (bit_length (n div 2)))"

declare bit_length.simps [simp del]

text \<open>The nearest integer, a tie going to the even one.\<close>

definition half_even :: "real \<Rightarrow> int" where
  "half_even x =
     (let f = \<lfloor>x\<rfloor>; d = x - of_int f
      in if d < 1 / 2 then f else if 1 / 2 < d then f + 1 else if even f then f else f + 1)"

text \<open>The binary exponent \<open>e\<close> of a number other than zero: \<open>2^e \<le> |x| < 2^(e+1)\<close>.\<close>

definition float_exponent :: "real \<Rightarrow> int" where
  "float_exponent x =
     (let y = \<bar>x\<bar>
      in if 1 \<le> y then int (bit_length (nat \<lfloor>y\<rfloor>)) - 1
         else - int (bit_length (nat (\<lceil>1 / y\<rceil> - 1))))"

text \<open>The nearest multiple of \<open>2^q\<close>.\<close>

definition quantize :: "real \<Rightarrow> int \<Rightarrow> real" where
  "quantize x q =
     (if 0 \<le> q then of_int (half_even (x / 2 ^ nat q)) * 2 ^ nat q
      else of_int (half_even (x * 2 ^ nat (- q))) / 2 ^ nat (- q))"

text \<open>
  A binary64 value has 53 significant bits and its last place is at least \<open>2^(-1074)\<close>; a
  number whose rounding would reach \<open>2^1024\<close>, that is one of magnitude
  \<open>2^1024 - 2^970\<close> (\<open>float_limit\<close>) or more, rounds to an infinity.
\<close>

definition float_limit :: int where
  "float_limit = 2 ^ 1024 - 2 ^ 970"

definition round64 :: "real \<Rightarrow> pyfloat" where
  "round64 x =
     (if of_int float_limit \<le> \<bar>x\<bar> then (if 0 < x then PInf else NInf)
      else if x = 0 then Fin 0
      else Fin (quantize x (max (float_exponent x) (- 1022) - 52)))"

subsection \<open>Float arithmetic and comparison\<close>

fun fneg :: "pyfloat \<Rightarrow> pyfloat" where
  "fneg (Fin x) = Fin (- x)"
| "fneg PInf = NInf"
| "fneg NInf = PInf"
| "fneg NaN = NaN"

fun fabs :: "pyfloat \<Rightarrow> pyfloat" where
  "fabs (Fin x) = Fin \<bar>x\<bar>"
| "fabs PInf = PInf"
| "fabs NInf = PInf"
| "fabs NaN = NaN"

fun fadd :: "pyfloat \<Rightarrow> pyfloat \<Rightarrow> pyfloat" where
  "fadd (Fin a) (Fin b) = round64 (a + b)"
| "fadd NaN _ = NaN"
| "fadd _ NaN = NaN"
| "fadd PInf NInf = NaN"
| "fadd NInf PInf = NaN"
| "fadd PInf _ = PInf"
| "fadd _ PInf = PInf"
| "fadd NInf _ = NInf"
| "fadd _ NInf = NInf"

definition fsub :: "pyfloat \<Rightarrow> pyfloat \<Rightarrow> pyfloat" where
  "fsub a b = fadd a (fneg b)"

text \<open>The sign of a float as seen by multiplication and division: \<open>None\<close> for a zero.\<close>

fun fpositive :: "pyfloat \<Rightarrow> bool option" where
  "fpositive (Fin x) = (if x = 0 then None else Some (0 < x))"
| "fpositive PInf = Some True"
| "fpositive NInf = Some False"
| "fpositive NaN = None"

definition signed_inf :: "bool \<Rightarrow> pyfloat" where
  "signed_inf pos = (if pos then PInf else NInf)"

fun fmul :: "pyfloat \<Rightarrow> pyfloat \<Rightarrow> pyfloat" where
  "fmul (Fin a) (Fin b) = round64 (a * b)"
| "fmul NaN _ = NaN"
| "fmul _ NaN = NaN"
| "fmul a b =
     (case (fpositive a, fpositive b) of
        (Some p, Some q) \<Rightarrow> signed_inf (p = q)
      | _ \<Rightarrow> NaN)"

text \<open>
  True division of two floats. Python raises \<open>ZeroDivisionError\<close> on a zero divisor
  instead of returning an infinity.
\<close>

fun fdiv :: "pyfloat \<Rightarrow> pyfloat \<Rightarrow> pyfloat" where
  "fdiv (Fin a) (Fin b) = round64 (a / b)"
| "fdiv NaN _ = NaN"
| "fdiv _ NaN = NaN"
| "fdiv (Fin a) _ = Fin 0"
| "fdiv a (Fin b) = (case fpositive a of Some p \<Rightarrow> signed_inf (p = (0 < b)) | None \<Rightarrow> NaN)"
| "fdiv _ _ = NaN"

definition py_truediv :: "pyfloat \<Rightarrow> pyfloat \<Rightarrow> py_error + pyfloat" where
  "py_truediv a b = (if b = Fin 0 then Inl ZeroDivisionError else Inr (fdiv a b))"

text \<open>Comparison of a float with a finite number: every comparison with NaN is false.\<close>

fun f_ge :: "pyfloat \<Rightarrow> real \<Rightarrow> bool" where
  "f_ge (Fin x) c = (c \<le> x)"
| "f_ge PInf c = True"
| "f_ge NInf c = False"
| "f_ge NaN c = False"

fun f_lt :: "pyfloat \<Rightarrow> real \<Rightarrow> bool" where
  "f_lt (Fin x) c = (x < c)"
| "f_lt PInf c = False"
| "f_lt NInf c = True"
| "f_lt NaN c = False"


subsection \<open>What the interpreter fixes\<close>

text \<open>
  Three behaviours of the interpreter are parameters of the model. \<open>float_repr\<close> is the
  text \<open>str\<close> gives a float (the shortest decimal that reads back). \<open>set_and\<close> is the
  order in which the intersection of two sets of strings is iterated, which Python does not
  fix; \<open>set_and_ok\<close> says that it iterates the intersection, each element once.
  \<open>int_max_str_digits\<close> is the limit on the number of digits in a conversion between
  \<open>int\<close> and \<open>str\<close> (\<open>sys.get_int_max_str_digits()\<close>): 0 for no limit, 4300 by
  default, at least 640 when set; a conversion beyond it raises \<open>ValueError\<close>.
\<close>

record py_runtime =
  float_repr :: "pyfloat \<Rightarrow> string"
  set_and :: "string list \<Rightarrow> string list \<Rightarrow> string list"
  int_max_str_digits :: nat

definition set_and_ok :: "py_runtime \<Rightarrow> bool" where
  "set_and_ok rt \<longleftrightarrow>
     (\<forall>xs ys. distinct (set_and rt xs ys) \<and> set (set_and rt xs ys) = set xs \<inter> set ys)"

definition first_seen_order :: "string list \<Rightarrow> string list \<Rightarrow> string list" where
  "first_seen_order xs ys = remdups (filter (\<lambda>x. x \<in> set ys) xs)"

definition digits_exceed :: "py_runtime \<Rightarrow> nat \<Rightarrow> bool" where
  "digits_exceed rt d \<longleftrightarrow> 0 < int_max_str_digits rt \<and> int_max_str_digits rt < d"

subsection \<open>Strings: whitespace, digits, the literal grammars of int() and float()\<close>

text \<open>
  \<open>str.strip()\<close> removes the characters for which \<open>str.isspace\<close> holds: below 256 these
  are the codes 9 to 13, 28 to 32, 133 and 160. \<open>int()\<close> and \<open>float()\<close> skip fewer
  characters at the two ends of their argument: the codes 9 to 13 and 32, and the two
  whitespace characters above 127; they reject the codes 28 to 31.
\<close>

definition py_isspace :: "char \<Rightarrow> bool" where
  "py_isspace c \<longleftrightarrow>
     (let n = (of_char c :: nat)
      in (9 \<le> n \<and> n \<le> 13) \<or> (28 \<le> n \<and> n \<le> 32) \<or> n = 133 \<or> n = 160)"

definition num_space :: "char \<Rightarrow> bool" where
  "num_space c \<longleftrightarrow>
     (let n = (of_char c :: nat) in (9 \<le> n \<and> n \<le> 13) \<or> n = 32 \<or> n = 133 \<or> n = 160)"

definition strip :: "string \<Rightarrow> string" where
  "strip s = rev (dropWhile py_isspace (rev (dropWhile py_isspace s)))"

definition strip_num :: "string \<Rightarrow> string" where
  "strip_num s = rev (dropWhile num_space (rev (dropWhile num_space s)))"

definition is_digit :: "char \<Rightarrow> bool" where
  "is_digit c \<longleftrightarrow> (let n = (of_char c :: nat) in 48 \<le> n \<and> n \<le> 57)"

definition digit_val :: "char \<Rightarrow> nat" where
  "digit_val c = (of_char c :: nat) - 48"

text \<open>
  A digit part of a numeric literal: digits, with single underscores allowed between two
  digits (\<open>int("1_000") = 1000\<close>).
\<close>

fun digitpart_ok :: "string \<Rightarrow> bool" where
  "digitpart_ok [] = False"
| "digitpart_ok [c] = is_digit c"
| "digitpart_ok (c # d # cs) =
     (is_digit c \<and> (if d = CHR ''_'' then digitpart_ok cs else digitpart_ok (d # cs)))"

definition digits_val :: "string \<Rightarrow> nat" where
  "digits_val ds = foldl (\<lambda>a c. 10 * a + digit_val c) 0 (filter is_digit ds)"

text \<open>An optionally signed digit part: the sign and the magnitude, if well formed.\<close>

definition signed_digits :: "string \<Rightarrow> (bool \<times> nat) option" where
  "signed_digits t =
     (case t of
        [] \<Rightarrow> None
      | c # cs \<Rightarrow>
          if c = CHR ''-'' then (if digitpart_ok cs then Some (True, digits_val cs) else None)
          else if c = CHR ''+'' then (if digitpart_ok cs then Some (False, digits_val cs) else None)
          else if digitpart_ok t then Some (False, digits_val t) else None)"

text \<open>
  \<open>int(s)\<close> in base 10. The digits counted against the limit are all the digits of the
  literal, leading zeros included.
\<close>

definition py_int_of_str :: "py_runtime \<Rightarrow> string \<Rightarrow> py_error + int" where
  "py_int_of_str rt s =
     (let t = strip_num s
      in case signed_digits t of
           None \<Rightarrow> Inl ValueError
         | Some (neg, n) \<Rightarrow>
             if digits_exceed rt (length (filter is_digit t)) then Inl ValueError
             else Inr (if neg then - int n else int n))"

definition to_lower :: "char \<Rightarrow> char" where
  "to_lower c = (let n = (of_char c :: nat) in if 65 \<le> n \<and> n \<le> 90 then char_of (n + 32) else c)"

definition is_exp_char :: "char \<Rightarrow> bool" where
  "is_exp_char c \<longleftrightarrow> c = CHR ''e'' \<or> c = CHR ''E''"

text \<open>
  The mantissa of a decimal float literal, \<open>digits [. [digits]]\<close> or \<open>. digits\<close>: its value.
\<close>

definition mantissa_val :: "string \<Rightarrow> real option" where
  "mantissa_val m =
     (let ip = takeWhile (\<lambda>c. c \<noteq> CHR ''.'') m;
          rest = dropWhile (\<lambda>c. c \<noteq> CHR ''.'') m
      in case rest of
           [] \<Rightarrow> if digitpart_ok ip then Some (real (digits_val ip)) else None
         | _ # fp \<Rightarrow>
             if (ip = [] \<or> digitpart_ok ip) \<and> (fp = [] \<or> digitpart_ok fp) \<and> \<not> (ip = [] \<and> fp = [])
             then Some (real (digits_val ip)
                        + real (digits_val fp) / 10 ^ length (filter is_digit fp))
             else None)"

definition exponent_val :: "string \<Rightarrow> int option" where
  "exponent_val ex =
     (case ex of
        [] \<Rightarrow> Some 0
      | _ # ds \<Rightarrow>
          (case signed_digits ds of
             None \<Rightarrow> None
           | Some (neg, n) \<Rightarrow> Some (if neg then - int n else int n)))"

definition scale10 :: "real \<Rightarrow> int \<Rightarrow> real" where
  "scale10 x e = (if 0 \<le> e then x * 10 ^ nat e else x / 10 ^ nat (- e))"

text \<open>
  An unsigned float literal: an infinity, a NaN, or a decimal literal, whose exact value is
  rounded once.
\<close>

definition unsigned_float :: "string \<Rightarrow> pyfloat option" where
  "unsigned_float u =
     (let l = map to_lower u in
      if l = ''inf'' \<or> l = ''infinity'' then Some PInf
      else if l = ''nan'' then Some NaN
      else (case (mantissa_val (takeWhile (\<lambda>c. \<not> is_exp_char c) u),
                  exponent_val (dropWhile (\<lambda>c. \<not> is_exp_char c) u)) of
              (Some m, Some e) \<Rightarrow> Some (round64 (scale10 m e))
            | _ \<Rightarrow> None))"

definition py_float_of_str :: "string \<Rightarrow> py_error + pyfloat" where
  "py_float_of_str s =
     (let t = strip_num s;
          neg = (t \<noteq> [] \<and> hd t = CHR ''-'');
          u = (if t \<noteq> [] \<and> (hd t = CHR ''-'' \<or> hd t = CHR ''+'') then tl t else t)
      in case unsigned_float u of
           None \<Rightarrow> Inl ValueError
         | Some f \<Rightarrow> Inr (if neg then fneg f else f))"

text \<open>
  The builtin \<open>float(x)\<close> on a cell value. An integer is rounded; one that rounds to an
  infinity raises \<open>OverflowError\<close>.
\<close>

fun py_float :: "pyval \<Rightarrow> py_error + pyfloat" where
  "py_float PyNone = Inl TypeError"
| "py_float (PyInt i) =
     (case round64 (of_int i) of Fin x \<Rightarrow> Inr (Fin x) | _ \<Rightarrow> Inl OverflowError)"
| "py_float (PyFloat f) = Inr f"
| "py_float (PyStr s) = py_float_of_str s"

section \<open>The comparison engine: one metric\<close>

record ComparisonResult =
  metric_name :: string
  base_value :: pyval
  target_value :: pyval
  absolute_change :: "pyfloat option"
  percent_change :: "pyfloat option"
  is_warning :: bool
  is_critical :: bool

type_synonym thresholds = "string \<rightharpoonup> real"

definition threshold_get :: "thresholds \<Rightarrow> string \<Rightarrow> real \<Rightarrow> real" where
  "threshold_get th k d = (case th k of None \<Rightarrow> d | Some v \<Rightarrow> v)"

text \<open>
  \<open>ComparisonEngine._compare_values\<close>. The \<open>try\<close> block converts the baseline first and
  catches \<open>ValueError\<close> and \<open>TypeError\<close> only, so the \<open>OverflowError\<close> of a
  conversion leaves the function; the division is outside the block.
\<close>

definition unquantifiable :: "string \<Rightarrow> pyval \<Rightarrow> pyval \<Rightarrow> ComparisonResult" where
  "unquantifiable m bv tv =
     \<lparr>metric_name = m, base_value = bv, target_value = tv,
      absolute_change = None, percent_change = None,
      is_warning = False, is_critical = False\<rparr>"

definition caught :: "py_error \<Rightarrow> bool" where
  "caught e \<longleftrightarrow> e = ValueError \<or> e = TypeError"

text \<open>The two flags \<open>(is_warning, is_critical)\<close> of a percent change.\<close>

definition flags :: "thresholds \<Rightarrow> pyfloat option \<Rightarrow> bool \<times> bool" where
  "flags th pc =
     (case pc of
        None \<Rightarrow> (False, False)
      | Some p \<Rightarrow>
          (let abs_percent = fabs p;
               warning_threshold = threshold_get th ''warning_percent'' 15;
               critical_threshold = threshold_get th ''critical_percent'' 30
           in if f_ge abs_percent critical_threshold then (False, True)
              else if f_ge abs_percent warning_threshold then (True, False)
              else (False, False)))"

definition classify ::
  "string \<Rightarrow> pyval \<Rightarrow> pyval \<Rightarrow> thresholds \<Rightarrow> pyfloat \<Rightarrow> pyfloat option \<Rightarrow> ComparisonResult" where
  "classify m bv tv th ac pc =
     \<lparr>metric_name = m, base_value = bv, target_value = tv,
      absolute_change = Some ac, percent_change = pc,
      is_warning = fst (flags th pc), is_critical = snd (flags th pc)\<rparr>"

definition compare_values ::
  "string \<Rightarrow> pyval \<Rightarrow> pyval \<Rightarrow> thresholds \<Rightarrow> py_error + ComparisonResult" where
  "compare_values m bv tv th =
     (case py_float bv of
        Inl e \<Rightarrow> if caught e then Inr (unquantifiable m bv tv) else Inl e
      | Inr base_num \<Rightarrow>
          (case py_float tv of
             Inl e \<Rightarrow> if caught e then Inr (unquantifiable m bv tv) else Inl e
           | Inr target_num \<Rightarrow>
               (let ac = fsub target_num base_num in
                if base_num \<noteq> Fin 0 then
                  (case py_truediv ac (fabs base_num) of
                     Inl e \<Rightarrow> Inl e
                   | Inr q \<Rightarrow> Inr (classify m bv tv th ac (Some (fmul q (Fin 100)))))
                else Inr (classify m bv tv th ac None))))"

section \<open>Value normalisation\<close>

text \<open>
  \<open>BaseReportParser._normalize_value\<close>. Each \<open>try\<close> block catches \<open>ValueError\<close>
  only, so any other error of a conversion would leave the function.
\<close>

definition remove_commas :: "string \<Rightarrow> string" where
  "remove_commas s = filter (\<lambda>c. c \<noteq> CHR '','') s"

definition parse_number :: "py_runtime \<Rightarrow> string \<Rightarrow> py_error + pyval" where
  "parse_number rt value_clean =
     (if CHR ''.'' \<in> set value_clean
      then (case py_float_of_str value_clean of Inl e \<Rightarrow> Inl e | Inr f \<Rightarrow> Inr (PyFloat f))
      else (case py_int_of_str rt value_clean of Inl e \<Rightarrow> Inl e | Inr i \<Rightarrow> Inr (PyInt i)))"

definition multipliers :: "(char \<times> int) list" where
  "multipliers = [(CHR ''K'', 1024), (CHR ''M'', 1024 ^ 2), (CHR ''G'', 1024 ^ 3), (CHR ''T'', 1024 ^ 4)]"

text \<open>The loop over the unit suffixes; \<open>None\<close> when no suffix returns.\<close>

fun suffix_loop :: "(char \<times> int) list \<Rightarrow> string \<Rightarrow> (py_error + pyval) option" where
  "suffix_loop [] value_clean = None"
| "suffix_loop ((suffix, multiplier) # ms) value_clean =
     (if value_clean \<noteq> [] \<and> last value_clean = suffix then
        (case py_float_of_str (butlast value_clean) of
           Inr f \<Rightarrow> Some (Inr (PyFloat (fmul f (Fin (of_int multiplier)))))
         | Inl e \<Rightarrow> if e = ValueError then suffix_loop ms value_clean else Some (Inl e))
      else suffix_loop ms value_clean)"

text \<open>The percent rule; \<open>None\<close> when it does not return.\<close>

definition percent_rule :: "string \<Rightarrow> (py_error + pyval) option" where
  "percent_rule v =
     (if v \<noteq> [] \<and> last v = CHR ''%'' then
        (case py_float_of_str (remove_commas (butlast v)) of
           Inr f \<Rightarrow> Some (Inr (PyFloat f))
         | Inl e \<Rightarrow> if e = ValueError then None else Some (Inl e))
      else None)"

definition normalize_value :: "py_runtime \<Rightarrow> string \<Rightarrow> py_error + pyval" where
  "normalize_value rt v0 =
     (if v0 = [] \<or> strip v0 = [] then Inr PyNone
      else
        (let v = strip v0; value_clean = remove_commas v in
         case parse_number rt value_clean of
           Inr x \<Rightarrow> Inr x
         | Inl e \<Rightarrow>
             if e \<noteq> ValueError then Inl e
             else (case percent_rule v of
                     Some r \<Rightarrow> r
                   | None \<Rightarrow>
                       (case suffix_loop multipliers value_clean of
                          Some r \<Rightarrow> r
                        | None \<Rightarrow> Inr (PyStr v)))))"

section \<open>Report tables\<close>

text \<open>
  A row is a \<open>dict\<close> from column name to cell value. Python dictionaries keep insertion
  order and \<open>_get_row_key\<close> reads the first value, so a row is an association list in
  insertion order; a lookup takes the first pair with the key.
\<close>

type_synonym row = "(string \<times> pyval) list"

fun dict_set :: "('k \<times> 'v) list \<Rightarrow> 'k \<Rightarrow> 'v \<Rightarrow> ('k \<times> 'v) list" where
  "dict_set [] k v = [(k, v)]"
| "dict_set ((k', v') # d) k v = (if k' = k then (k, v) # d else (k', v') # dict_set d k v)"

definition dict_get :: "row \<Rightarrow> string \<Rightarrow> pyval" where
  "dict_get r k = (case map_of r k of None \<Rightarrow> PyNone | Some v \<Rightarrow> v)"

definition dict_has :: "row \<Rightarrow> string \<Rightarrow> bool" where
  "dict_has r k \<longleftrightarrow> map_of r k \<noteq> None"

record TableData =
  name :: string
  headers :: "string list"
  rows :: "row list"
  tmetadata :: "(string \<times> pyval) list"

record ReportMetadata =
  report_type :: string
  version :: string
  database_name :: string
  instance_name :: string
  start_time :: "real option"
  end_time :: "real option"
  duration_minutes :: "pyfloat option"

text \<open>
  A parsed report (\<open>BaseReportParser\<close> after \<open>parse()\<close>): its metadata and the dictionary
  of the tables found.
\<close>

record report_parser =
  metadata :: ReportMetadata
  tables :: "(string \<times> TableData) list"

definition get_available_tables :: "report_parser \<Rightarrow> string list" where
  "get_available_tables p = map fst (tables p)"

definition get_table :: "report_parser \<Rightarrow> string \<Rightarrow> TableData option" where
  "get_table p table_name = map_of (tables p) table_name"

section \<open>Markup tables\<close>

text \<open>
  \<open>AWRParser._parse_html_table\<close> and \<open>PgProfileParser._parse_html_table\<close> have the same
  text. Of the document tree they read, for every \<open>tr\<close> under the table in document order,
  the \<open>th\<close> and \<open>td\<close> elements under it in document order and the text of each: a markup
  table is that list of lists.
\<close>

datatype cell_tag = Th | Td

type_synonym html_cell = "cell_tag \<times> string"
type_synonym html_row = "html_cell list"
type_synonym html_table = "html_row list"

definition find_all_td :: "html_row \<Rightarrow> html_cell list" where
  "find_all_td tr = filter (\<lambda>c. fst c = Td) tr"

text \<open>The loop \<open>for i, cell in enumerate(cells)\<close>; \<open>headers[i]\<close> raises out of range.\<close>

fun fill_row ::
  "py_runtime \<Rightarrow> row \<Rightarrow> string list \<Rightarrow> nat \<Rightarrow> html_cell list \<Rightarrow> py_error + row" where
  "fill_row rt row_data hs i [] = Inr row_data"
| "fill_row rt row_data hs i (cell # cells) =
     (if i < length hs then
        (case normalize_value rt (strip (snd cell)) of
           Inl e \<Rightarrow> Inl e
         | Inr v \<Rightarrow> fill_row rt (dict_set row_data (hs ! i) v) hs (Suc i) cells)
      else Inl IndexError)"

fun data_rows :: "py_runtime \<Rightarrow> string list \<Rightarrow> html_row list \<Rightarrow> py_error + row list" where
  "data_rows rt hs [] = Inr []"
| "data_rows rt hs (tr # trs) =
     (let cells = find_all_td tr in
      if cells \<noteq> [] \<and> length cells = length hs then
        (case fill_row rt [] hs 0 cells of
           Inl e \<Rightarrow> Inl e
         | Inr row_data \<Rightarrow>
             (case data_rows rt hs trs of Inl e \<Rightarrow> Inl e | Inr rs \<Rightarrow> Inr (row_data # rs)))
      else data_rows rt hs trs)"

definition header_names :: "html_table \<Rightarrow> string list" where
  "header_names table =
     (case table of [] \<Rightarrow> [] | header_row # _ \<Rightarrow> map (\<lambda>c. strip (snd c)) header_row)"

definition parse_html_table :: "py_runtime \<Rightarrow> html_table \<Rightarrow> string \<Rightarrow> py_error + TableData" where
  "parse_html_table rt table table_name =
     (let hs = header_names table
      in case data_rows rt hs (drop 1 table) of
           Inl e \<Rightarrow> Inl e
         | Inr rs \<Rightarrow> Inr \<lparr>name = table_name, headers = hs, rows = rs, tmetadata = []\<rparr>)"

definition awr_parse_html_table :: "py_runtime \<Rightarrow> html_table \<Rightarrow> string \<Rightarrow> py_error + TableData" where
  "awr_parse_html_table = parse_html_table"

definition pg_parse_html_table :: "py_runtime \<Rightarrow> html_table \<Rightarrow> string \<Rightarrow> py_error + TableData" where
  "pg_parse_html_table = parse_html_table"

section \<open>The comparison engine: tables and reports\<close>

subsection \<open>What the engine takes from its environment\<close>

text \<open>
  The configuration is read from files by \<open>ConfigLoader\<close>; the engine sees the loaded
  values: the ignored columns, the threshold table of each comparison mode and the table
  descriptions.
\<close>

record config =
  ignored_columns :: "string list"
  thresholds_of :: "string \<rightharpoonup> thresholds"
  table_descriptions :: "string \<rightharpoonup> string"

definition get_thresholds_cfg :: "config \<Rightarrow> string \<Rightarrow> thresholds" where
  "get_thresholds_cfg cfg comparison_type =
     (case thresholds_of cfg comparison_type of None \<Rightarrow> Map.empty | Some th \<Rightarrow> th)"

definition get_table_description :: "config \<Rightarrow> string \<Rightarrow> string" where
  "get_table_description cfg table_name =
     (case table_descriptions cfg table_name of None \<Rightarrow> table_name | Some d \<Rightarrow> d)"

subsection \<open>Text of a value\<close>

definition digit_char :: "nat \<Rightarrow> char" where
  "digit_char d = char_of (48 + d)"

fun dec_str :: "nat \<Rightarrow> string" where
  "dec_str n = (if n < 10 then [digit_char n] else dec_str (n div 10) @ [digit_char (n mod 10)])"

declare dec_str.simps [simp del]

text \<open>
  The builtin \<open>str(x)\<close> on a cell value; the text of an integer with more digits than
  the limit raises \<open>ValueError\<close>.
\<close>

fun py_str :: "py_runtime \<Rightarrow> pyval \<Rightarrow> py_error + string" where
  "py_str rt PyNone = Inr ''None''"
| "py_str rt (PyInt i) =
     (if digits_exceed rt (length (dec_str (nat \<bar>i\<bar>))) then Inl ValueError
      else Inr (if i < 0 then CHR ''-'' # dec_str (nat (- i)) else dec_str (nat i)))"
| "py_str rt (PyFloat f) = Inr (float_repr rt f)"
| "py_str rt (PyStr s) = Inr s"

subsection \<open>Rows and columns\<close>

definition get_row_key :: "py_runtime \<Rightarrow> row \<Rightarrow> py_error + string" where
  "get_row_key rt r = py_str rt (case r of [] \<Rightarrow> PyStr [] | (k, first_value) # _ \<Rightarrow> first_value)"

definition text_columns :: "string list" where
  "text_columns = [''Metric'', ''Event'', ''SQL ID'', ''Query ID'', ''Name'', ''Description'']"

definition is_numeric_column :: "config \<Rightarrow> string \<Rightarrow> bool" where
  "is_numeric_column cfg column_name =
     (if column_name \<in> set (ignored_columns cfg) then False
      else column_name \<notin> set text_columns)"

subsection \<open>Rows of one engine\<close>

text \<open>
  \<open>ComparisonEngine._compare_same_platform\<close>. The index is built by a dictionary
  comprehension, so a later row replaces an earlier row with the same key. An empty
  dictionary is false in \<open>if target_row\<close>.
\<close>

fun index_rows ::
  "py_runtime \<Rightarrow> (string \<rightharpoonup> row) \<Rightarrow> row list \<Rightarrow> py_error + (string \<rightharpoonup> row)" where
  "index_rows rt m [] = Inr m"
| "index_rows rt m (r # rs) =
     (case get_row_key rt r of
        Inl e \<Rightarrow> Inl e
      | Inr k \<Rightarrow> index_rows rt (m(k \<mapsto> r)) rs)"

definition target_index :: "py_runtime \<Rightarrow> row list \<Rightarrow> py_error + (string \<rightharpoonup> row)" where
  "target_index rt trs = index_rows rt Map.empty trs"

fun compare_row ::
  "config \<Rightarrow> thresholds \<Rightarrow> row \<Rightarrow> row \<Rightarrow> string list \<Rightarrow> py_error + ComparisonResult list" where
  "compare_row cfg th base_row target_row [] = Inr []"
| "compare_row cfg th base_row target_row (header # hs) =
     (if dict_has target_row header \<and> is_numeric_column cfg header
         \<and> dict_get base_row header \<noteq> PyNone \<and> dict_get target_row header \<noteq> PyNone
      then
        (case compare_values header (dict_get base_row header) (dict_get target_row header) th of
           Inl e \<Rightarrow> Inl e
         | Inr comparison \<Rightarrow>
             (case compare_row cfg th base_row target_row hs of
                Inl e \<Rightarrow> Inl e
              | Inr cs \<Rightarrow> Inr (comparison # cs)))
      else compare_row cfg th base_row target_row hs)"

definition same_row ::
  "py_runtime \<Rightarrow> config \<Rightarrow> thresholds \<Rightarrow> string list \<Rightarrow> (string \<rightharpoonup> row) \<Rightarrow> row
   \<Rightarrow> py_error + ComparisonResult list" where
  "same_row rt cfg th hs index base_row =
     (case get_row_key rt base_row of
        Inl e \<Rightarrow> Inl e
      | Inr row_key \<Rightarrow>
          (case index row_key of
             None \<Rightarrow> Inr []
           | Some target_row \<Rightarrow>
               if target_row = [] then Inr [] else compare_row cfg th base_row target_row hs))"

fun same_rows_loop ::
  "py_runtime \<Rightarrow> config \<Rightarrow> thresholds \<Rightarrow> string list \<Rightarrow> (string \<rightharpoonup> row) \<Rightarrow> row list
   \<Rightarrow> py_error + ComparisonResult list" where
  "same_rows_loop rt cfg th hs index [] = Inr []"
| "same_rows_loop rt cfg th hs index (base_row # brs) =
     (case same_row rt cfg th hs index base_row of
        Inl e \<Rightarrow> Inl e
      | Inr cs \<Rightarrow>
          (case same_rows_loop rt cfg th hs index brs of
             Inl e \<Rightarrow> Inl e
           | Inr ds \<Rightarrow> Inr (cs @ ds)))"

definition compare_same_platform ::
  "py_runtime \<Rightarrow> config \<Rightarrow> TableData \<Rightarrow> TableData \<Rightarrow> thresholds
   \<Rightarrow> py_error + ComparisonResult list" where
  "compare_same_platform rt cfg base_table target_table th =
     (case target_index rt (rows target_table) of
        Inl e \<Rightarrow> Inl e
      | Inr index \<Rightarrow> same_rows_loop rt cfg th (headers base_table) index (rows base_table))"

subsection \<open>Columns of two engines\<close>

text \<open>
  \<open>ComparisonEngine._compare_cross_platform\<close>. \<open>sum\<close> starts from the integer 0 and adds
  from left to right with \<open>+\<close>, which is defined between numbers and between strings
  and raises \<open>TypeError\<close> otherwise; an integer added to a float is converted first. The
  quotient by the length is a true division: of two integers it is their quotient rounded
  once, and \<open>OverflowError\<close> when that is beyond the range.
\<close>

fun py_add :: "pyval \<Rightarrow> pyval \<Rightarrow> py_error + pyval" where
  "py_add (PyInt a) (PyInt b) = Inr (PyInt (a + b))"
| "py_add (PyInt a) (PyFloat b) =
     (case py_float (PyInt a) of Inl e \<Rightarrow> Inl e | Inr fa \<Rightarrow> Inr (PyFloat (fadd fa b)))"
| "py_add (PyFloat a) (PyInt b) =
     (case py_float (PyInt b) of Inl e \<Rightarrow> Inl e | Inr fb \<Rightarrow> Inr (PyFloat (fadd a fb)))"
| "py_add (PyFloat a) (PyFloat b) = Inr (PyFloat (fadd a b))"
| "py_add (PyStr a) (PyStr b) = Inr (PyStr (a @ b))"
| "py_add _ _ = Inl TypeError"

fun sum_from :: "pyval \<Rightarrow> pyval list \<Rightarrow> py_error + pyval" where
  "sum_from acc [] = Inr acc"
| "sum_from acc (v # vs) = (case py_add acc v of Inl e \<Rightarrow> Inl e | Inr acc' \<Rightarrow> sum_from acc' vs)"

definition py_sum :: "pyval list \<Rightarrow> py_error + pyval" where
  "py_sum vs = sum_from (PyInt 0) vs"

fun div_by_len :: "pyval \<Rightarrow> nat \<Rightarrow> py_error + pyfloat" where
  "div_by_len (PyInt a) n =
     (if n = 0 then Inl ZeroDivisionError
      else (case round64 (of_int a / of_nat n) of
              Fin x \<Rightarrow> Inr (Fin x)
            | _ \<Rightarrow> Inl OverflowError))"
| "div_by_len (PyFloat f) n =
     (case py_float (PyInt (int n)) of Inl e \<Rightarrow> Inl e | Inr d \<Rightarrow> py_truediv f d)"
| "div_by_len _ n = Inl TypeError"

definition average :: "pyval list \<Rightarrow> py_error + pyfloat" where
  "average vs = (case py_sum vs of Inl e \<Rightarrow> Inl e | Inr s \<Rightarrow> div_by_len s (length vs))"

definition column_values :: "TableData \<Rightarrow> string \<Rightarrow> pyval list" where
  "column_values t header = filter (\<lambda>v. v \<noteq> PyNone) (map (\<lambda>r. dict_get r header) (rows t))"

fun cross_headers_loop ::
  "config \<Rightarrow> thresholds \<Rightarrow> TableData \<Rightarrow> TableData \<Rightarrow> string list
   \<Rightarrow> py_error + ComparisonResult list" where
  "cross_headers_loop cfg th base_table target_table [] = Inr []"
| "cross_headers_loop cfg th base_table target_table (header # hs) =
     (if is_numeric_column cfg header
         \<and> column_values base_table header \<noteq> [] \<and> column_values target_table header \<noteq> []
      then
        (case average (column_values base_table header) of
           Inl e \<Rightarrow> Inl e
         | Inr base_avg \<Rightarrow>
             (case average (column_values target_table header) of
                Inl e \<Rightarrow> Inl e
              | Inr target_avg \<Rightarrow>
                  (case compare_values header (PyFloat base_avg) (PyFloat target_avg) th of
                     Inl e \<Rightarrow> Inl e
                   | Inr comparison \<Rightarrow>
                       (case cross_headers_loop cfg th base_table target_table hs of
                          Inl e \<Rightarrow> Inl e
                        | Inr cs \<Rightarrow> Inr (comparison # cs)))))
      else cross_headers_loop cfg th base_table target_table hs)"

definition compare_cross_platform ::
  "py_runtime \<Rightarrow> config \<Rightarrow> TableData \<Rightarrow> TableData \<Rightarrow> thresholds
   \<Rightarrow> py_error + ComparisonResult list" where
  "compare_cross_platform rt cfg base_table target_table th =
     cross_headers_loop cfg th base_table target_table
       (set_and rt (headers base_table) (headers target_table))"

subsection \<open>Tables and reports\<close>

datatype ComparisonType = ORACLE_ORACLE | POSTGRES_POSTGRES | CROSS_PLATFORM

record TableComparison =
  table_name :: string
  table_description :: string
  base_table :: TableData
  target_table :: TableData
  comparisons :: "ComparisonResult list"

definition get_critical_count :: "TableComparison \<Rightarrow> nat" where
  "get_critical_count tc = length (filter is_critical (comparisons tc))"

definition get_warning_count :: "TableComparison \<Rightarrow> nat" where
  "get_warning_count tc = length (filter (\<lambda>c. is_warning c \<and> \<not> is_critical c) (comparisons tc))"

fun contains :: "string \<Rightarrow> string \<Rightarrow> bool" where
  "contains sub [] = (sub = [])"
| "contains sub (c # cs) = (take (length sub) (c # cs) = sub \<or> contains sub cs)"

definition determine_comparison_type :: "string \<Rightarrow> string \<Rightarrow> ComparisonType" where
  "determine_comparison_type base_type target_type =
     (if base_type = target_type then
        (if contains ''oracle'' base_type then ORACLE_ORACLE else POSTGRES_POSTGRES)
      else CROSS_PLATFORM)"

definition get_thresholds :: "config \<Rightarrow> ComparisonType \<Rightarrow> thresholds" where
  "get_thresholds cfg comparison_type =
     (if comparison_type = CROSS_PLATFORM then get_thresholds_cfg cfg ''cross_platform''
      else get_thresholds_cfg cfg ''same_platform'')"

definition get_common_tables :: "py_runtime \<Rightarrow> report_parser \<Rightarrow> report_parser \<Rightarrow> string list" where
  "get_common_tables rt base_parser target_parser =
     set_and rt (get_available_tables base_parser) (get_available_tables target_parser)"

definition compare_tables ::
  "py_runtime \<Rightarrow> config \<Rightarrow> string \<Rightarrow> TableData \<Rightarrow> TableData \<Rightarrow> thresholds \<Rightarrow> ComparisonType
   \<Rightarrow> py_error + TableComparison option" where
  "compare_tables rt cfg tname bt tt th comparison_type =
     (case (if comparison_type = CROSS_PLATFORM then compare_cross_platform rt cfg bt tt th
            else compare_same_platform rt cfg bt tt th) of
        Inl e \<Rightarrow> Inl e
      | Inr cs \<Rightarrow>
          if cs = [] then Inr None
          else Inr (Some \<lparr>table_name = tname,
                           table_description = get_table_description cfg tname,
                           base_table = bt, target_table = tt, comparisons = cs\<rparr>))"

text \<open>
  A \<open>TableData\<close> has a \<open>__len__\<close>, so in \<open>if base_table and target_table\<close> a table
  without rows is false, as a missing table is.
\<close>

definition truthy_table :: "TableData option \<Rightarrow> bool" where
  "truthy_table t = (case t of None \<Rightarrow> False | Some d \<Rightarrow> rows d \<noteq> [])"

fun tables_loop ::
  "py_runtime \<Rightarrow> config \<Rightarrow> thresholds \<Rightarrow> ComparisonType \<Rightarrow> report_parser \<Rightarrow> report_parser
   \<Rightarrow> string list \<Rightarrow> py_error + TableComparison list" where
  "tables_loop rt cfg th ct bp tp [] = Inr []"
| "tables_loop rt cfg th ct bp tp (tname # ns) =
     (case (get_table bp tname, get_table tp tname) of
        (Some bt, Some tt) \<Rightarrow>
          if truthy_table (Some bt) \<and> truthy_table (Some tt) then
            (case compare_tables rt cfg tname bt tt th ct of
               Inl e \<Rightarrow> Inl e
             | Inr comparison \<Rightarrow>
                 (case tables_loop rt cfg th ct bp tp ns of
                    Inl e \<Rightarrow> Inl e
                  | Inr tcs \<Rightarrow>
                      Inr (case comparison of None \<Rightarrow> tcs | Some c \<Rightarrow> c # tcs)))
          else tables_loop rt cfg th ct bp tp ns
      | _ \<Rightarrow> tables_loop rt cfg th ct bp tp ns)"

record summary_data =
  total_tables :: nat
  total_comparisons :: nat
  critical_count :: nat
  warning_count :: nat
  has_issues :: bool

definition generate_summary :: "TableComparison list \<Rightarrow> summary_data" where
  "generate_summary tcs =
     (let total_critical = sum_list (map get_critical_count tcs);
          total_warnings = sum_list (map get_warning_count tcs)
      in \<lparr>total_tables = length tcs,
          total_comparisons = sum_list (map (\<lambda>tc. length (comparisons tc)) tcs),
          critical_count = total_critical,
          warning_count = total_warnings,
          has_issues = (0 < total_critical \<or> 0 < total_warnings)\<rparr>)"

record comparison_output =
  comparison_type :: ComparisonType
  base_metadata :: ReportMetadata
  target_metadata :: ReportMetadata
  table_comparisons :: "TableComparison list"
  thresholds :: thresholds
  summary :: summary_data

text \<open>
  \<open>ComparisonEngine.compare_reports\<close>; \<open>selected_tables\<close> is an optional list, \<open>None\<close>
  by default.
\<close>

definition compare_reports ::
  "py_runtime \<Rightarrow> config \<Rightarrow> report_parser \<Rightarrow> report_parser \<Rightarrow> string list option
   \<Rightarrow> py_error + comparison_output" where
  "compare_reports rt cfg base_parser target_parser selected_tables =
     (let ct = determine_comparison_type (report_type (metadata base_parser))
                 (report_type (metadata target_parser));
          th = get_thresholds cfg ct;
          selected = (case selected_tables of
                        None \<Rightarrow> get_common_tables rt base_parser target_parser
                      | Some ns \<Rightarrow> ns)
      in case tables_loop rt cfg th ct base_parser target_parser selected of
           Inl e \<Rightarrow> Inl e
         | Inr tcs \<Rightarrow>
             Inr \<lparr>comparison_type = ct,
                  base_metadata = metadata base_parser,
                  target_metadata = metadata target_parser,
                  table_comparisons = tcs,
                  thresholds = th,
                  summary = generate_summary tcs\<rparr>)"

section \<open>Auxiliary notions for the properties\<close>

text \<open>
  The characters of a decimal literal, and the characters a literal accepted by \<open>float()\<close>
  or \<open>int()\<close> can end with (a literal character, or the last letter of "inf", "infinity"
  or "nan").
\<close>

definition literal_char :: "char \<Rightarrow> bool" where
  "literal_char c \<longleftrightarrow> is_digit c \<or> c = CHR ''_'' \<or> c = CHR ''.'' \<or> c = CHR ''+'' \<or> c = CHR ''-'' \<or> is_exp_char c"

definition final_ok :: "char \<Rightarrow> bool" where
  "final_ok c \<longleftrightarrow> literal_char c \<or> to_lower c = CHR ''f'' \<or> to_lower c = CHR ''y'' \<or> to_lower c = CHR ''n''"

text \<open>
  The decimal text of a natural number with a comma before every group of three digits
  counted from the right, as in "1,234,567".
\<close>

fun commas3 :: "string \<Rightarrow> string" where
  "commas3 (a # b # c # d # ds) = a # b # c # CHR '','' # commas3 (d # ds)"
| "commas3 ds = ds"

definition thousands :: "nat \<Rightarrow> string" where
  "thousands n = rev (commas3 (rev (dec_str n)))"

text \<open>
  A data row is kept when it has \<open>td\<close> cells and as many of them as the header row has
  cells, \<open>th\<close> or \<open>td\<close> (see \<open>data_rows\<close>). The specification counts the cells of a
  data row as it counts those of the header row, \<open>th\<close> and \<open>td\<close> alike.
\<close>

definition well_formed_row :: "string list \<Rightarrow> html_row \<Rightarrow> bool" where
  "well_formed_row hs tr \<longleftrightarrow> find_all_td tr \<noteq> [] \<and> length (find_all_td tr) = length hs"

definition cell_count_matches :: "html_table \<Rightarrow> html_row \<Rightarrow> bool" where
  "cell_count_matches table tr \<longleftrightarrow> length tr = length (hd table)"

text \<open>
  A markup table with one well-formed data row and three malformed ones, and a markup table
  whose data row has three cells, a \<open>th\<close> and two \<open>td\<close>, under a header row of two cells.
\<close>

definition example_markup_th :: html_table where
  "example_markup_th =
     [[(Th, ''Metric''), (Th, ''Per Second'')],
      [(Th, ''1''), (Td, ''DB Time''), (Td, ''250'')]]"

definition example_markup :: html_table where
  "example_markup =
     [[(Th, ''Metric''), (Th, '' Per Second '')],
      [(Td, ''DB Time''), (Td, ''1,000'')],
      [(Td, ''CPU Time'')],
      [(Td, ''Redo''), (Td, ''12.5%''), (Td, ''7'')],
      [(Th, ''Reads''), (Td, ''2K'')]]"

text \<open>
  Notions for the alignment of rows: the condition under which the source compares a column
  of a matched pair of rows, the outcomes of a matched pair (one per such column of the
  baseline header list, in order), and the last row of a table with a given key.
\<close>

definition comparable_column :: "config \<Rightarrow> row \<Rightarrow> row \<Rightarrow> string \<Rightarrow> bool" where
  "comparable_column cfg base_row target_row header \<longleftrightarrow>
     dict_has target_row header \<and> is_numeric_column cfg header
     \<and> dict_get base_row header \<noteq> PyNone \<and> dict_get target_row header \<noteq> PyNone"

definition row_outcomes ::
  "config \<Rightarrow> thresholds \<Rightarrow> string list \<Rightarrow> row \<Rightarrow> row \<Rightarrow> ComparisonResult list \<Rightarrow> bool" where
  "row_outcomes cfg th hs base_row target_row outs \<longleftrightarrow>
     list_all2
       (\<lambda>h r. compare_values h (dict_get base_row h) (dict_get target_row h) th = Inr r)
       (filter (comparable_column cfg base_row target_row) hs) outs"

definition last_with_key :: "py_runtime \<Rightarrow> row list \<Rightarrow> string \<Rightarrow> row option" where
  "last_with_key rt trs k =
     (let ms = filter (\<lambda>r. get_row_key rt r = Inr k) trs
      in if ms = [] then None else Some (last ms))"

definition matched_outcomes ::
  "py_runtime \<Rightarrow> config \<Rightarrow> thresholds \<Rightarrow> string list \<Rightarrow> row list \<Rightarrow> row
   \<Rightarrow> ComparisonResult list \<Rightarrow> bool" where
  "matched_outcomes rt cfg th hs trs base_row outs \<longleftrightarrow>
     (case get_row_key rt base_row of
        Inl e \<Rightarrow> False
      | Inr k \<Rightarrow>
          (case last_with_key rt trs k of
             None \<Rightarrow> outs = []
           | Some target_row \<Rightarrow> row_outcomes cfg th hs base_row target_row outs))"



text \<open>
  The conversions of a cell value that can raise an error the source does not catch are
  those of an integer: to a float when it is beyond the range of floats, to text when it
  has more digits than the limit. A table is safe when it holds no such integer.
\<close>

definition safe_value :: "py_runtime \<Rightarrow> pyval \<Rightarrow> bool" where
  "safe_value rt v \<longleftrightarrow>
     (case v of
        PyInt i \<Rightarrow> \<bar>i\<bar> < float_limit \<and> \<not> digits_exceed rt (length (dec_str (nat \<bar>i\<bar>)))
      | _ \<Rightarrow> True)"

definition safe_row :: "py_runtime \<Rightarrow> row \<Rightarrow> bool" where
  "safe_row rt r \<longleftrightarrow> (\<forall>v\<in>set (map snd r). safe_value rt v)"

definition safe_table :: "py_runtime \<Rightarrow> TableData \<Rightarrow> bool" where
  "safe_table rt t \<longleftrightarrow> (\<forall>r\<in>set (rows t). safe_row rt r)"

definition safe_report :: "py_runtime \<Rightarrow> report_parser \<Rightarrow> bool" where
  "safe_report rt p \<longleftrightarrow> (\<forall>t\<in>set (map snd (tables p)). safe_table rt t)"

text \<open>
  Example inputs: a runtime, thresholds, a configuration and load-profile tables. The
  example runtime has the default limit of 4300 digits. Its \<open>float_repr\<close> gives the text
  of an integral float below \<open>10^16\<close> and of the three special values as the interpreter
  does; the shortest decimal of any other float is not modelled, and a placeholder stands
  for it.
\<close>

definition example_float_repr :: "pyfloat \<Rightarrow> string" where
  "example_float_repr f =
     (case f of
        Fin x \<Rightarrow>
          if x = of_int \<lfloor>x\<rfloor> \<and> \<bar>x\<bar> < 10 ^ 16
          then (if x < 0 then ''-'' else []) @ dec_str (nat \<bar>\<lfloor>x\<rfloor>\<bar>) @ ''.0''
          else ''<float>''
      | PInf \<Rightarrow> ''inf''
      | NInf \<Rightarrow> ''-inf''
      | NaN \<Rightarrow> ''nan'')"

definition example_runtime :: py_runtime where
  "example_runtime =
     \<lparr>float_repr = example_float_repr, set_and = first_seen_order, int_max_str_digits = 4300\<rparr>"

definition example_thresholds :: thresholds where
  "example_thresholds = [''warning_percent'' \<mapsto> 15, ''critical_percent'' \<mapsto> 30]"

definition example_config :: config where
  "example_config =
     \<lparr>ignored_columns = [],
      thresholds_of = [''same_platform'' \<mapsto> example_thresholds,
                       ''cross_platform'' \<mapsto> example_thresholds],
      table_descriptions = Map.empty\<rparr>"

definition example_base :: TableData where
  "example_base =
     \<lparr>name = ''load_profile'', headers = [''Metric'', ''Per Second''],
      rows = [[(''Metric'', PyStr ''DB Time''), (''Per Second'', PyInt 1000)],
              [(''Metric'', PyStr ''Redo size''), (''Per Second'', PyInt 50)]],
      tmetadata = []\<rparr>"

definition example_target :: TableData where
  "example_target =
     \<lparr>name = ''load_profile'', headers = [''Metric'', ''Per Second''],
      rows = [[(''Metric'', PyStr ''DB Time''), (''Per Second'', PyInt 1300)]],
      tmetadata = []\<rparr>"

definition example_target_dup :: TableData where
  "example_target_dup =
     \<lparr>name = ''load_profile'', headers = [''Metric'', ''Per Second''],
      rows = [[(''Metric'', PyStr ''DB Time''), (''Per Second'', PyInt 1100)],
              [(''Metric'', PyStr ''DB Time''), (''Per Second'', PyInt 1300)]],
      tmetadata = []\<rparr>"

text \<open>
  Example inputs: statement tables whose first column, the key, holds integers, a text, a
  float and \<open>None\<close>; thresholds other than the defaults; and the decimal text of
  \<open>10^309\<close>, an integer beyond the range of floats.
\<close>

definition example_sql_base :: TableData where
  "example_sql_base =
     \<lparr>name = ''sql_statistics'', headers = [''SQL ID'', ''Executions''],
      rows = [[(''SQL ID'', PyInt 7), (''Executions'', PyInt 16)],
              [(''SQL ID'', PyInt 70), (''Executions'', PyInt 100)],
              [(''SQL ID'', PyInt (- 12)), (''Executions'', PyInt (- 4))],
              [(''SQL ID'', PyNone), (''Executions'', PyInt 8)]],
      tmetadata = []\<rparr>"

definition example_sql_target :: TableData where
  "example_sql_target =
     \<lparr>name = ''sql_statistics'', headers = [''SQL ID'', ''Executions''],
      rows = [[(''SQL ID'', PyFloat (Fin 7)), (''Executions'', PyInt 1)],
              [(''SQL ID'', PyStr ''7''), (''Executions'', PyInt 19)],
              [(''SQL ID'', PyStr ''None''), (''Executions'', PyInt 9)],
              [(''SQL ID'', PyInt (- 12)), (''Executions'', PyInt (- 6))]],
      tmetadata = []\<rparr>"

definition example_custom_thresholds :: thresholds where
  "example_custom_thresholds = [''warning_percent'' \<mapsto> 10, ''critical_percent'' \<mapsto> 20]"

definition example_huge :: int where
  "example_huge = 10 ^ 309"

definition example_huge_text :: string where
  "example_huge_text = CHR ''1'' # replicate 309 (CHR ''0'')"

definition example_huge_base :: TableData where
  "example_huge_base =
     \<lparr>name = ''load_profile'', headers = [''Metric'', ''Per Second''],
      rows = [[(''Metric'', PyStr ''DB Time''), (''Per Second'', PyInt example_huge)]],
      tmetadata = []\<rparr>"

text \<open>
  Example inputs: the least natural number with more digits than the default limit, and
  one with as many digits as the limit.
\<close>

definition example_over_limit :: nat where
  "example_over_limit = 10 ^ 4300"

definition example_at_limit :: nat where
  "example_at_limit = 10 ^ 4299"

text \<open>
  Example inputs: wait-event tables of the two engines (the second baseline table has a
  text cell in its numeric column), and parsed reports holding the example tables.
\<close>

definition example_events_base :: TableData where
  "example_events_base =
     \<lparr>name = ''wait_events'', headers = [''Event'', ''Time''],
      rows = [[(''Event'', PyStr ''db file sequential read''), (''Time'', PyInt 100)],
              [(''Event'', PyStr ''log file sync''), (''Time'', PyInt 200)],
              [(''Event'', PyStr ''direct path read''), (''Time'', PyInt 300)]],
      tmetadata = []\<rparr>"

definition example_events_target :: TableData where
  "example_events_target =
     \<lparr>name = ''wait_events'', headers = [''Event'', ''Time''],
      rows = [[(''Event'', PyStr ''DataFileRead''), (''Time'', PyInt 180)],
              [(''Event'', PyStr ''WALSync''), (''Time'', PyInt 220)]],
      tmetadata = []\<rparr>"

definition example_events_text :: TableData where
  "example_events_text =
     \<lparr>name = ''wait_events'', headers = [''Event'', ''Time''],
      rows = [[(''Event'', PyStr ''db file sequential read''), (''Time'', PyInt 100)],
              [(''Event'', PyStr ''log file sync''), (''Time'', PyStr ''N/A'')]],
      tmetadata = []\<rparr>"

definition example_metadata :: "string \<Rightarrow> ReportMetadata" where
  "example_metadata t =
     \<lparr>report_type = t, version = ''Unknown'', database_name = ''PROD'',
      instance_name = ''PROD1'', start_time = None, end_time = None,
      duration_minutes = None\<rparr>"

definition example_awr :: report_parser where
  "example_awr =
     \<lparr>metadata = example_metadata ''oracle_awr'',
      tables = [(''load_profile'', example_base), (''wait_events'', example_events_text)]\<rparr>"

definition example_awr_later :: report_parser where
  "example_awr_later =
     \<lparr>metadata = example_metadata ''oracle_awr'',
      tables = [(''load_profile'', example_target)]\<rparr>"

definition example_pg :: report_parser where
  "example_pg =
     \<lparr>metadata = example_metadata ''postgresql_pg_profile'',
      tables = [(''wait_events'', example_events_target)]\<rparr>"

text \<open>
  Notions for cross-engine comparison: the values the builtin \<open>sum\<close> can add to a number,
  and the columns the source averages (classified numeric, with a value on both sides).
\<close>

definition is_number :: "pyval \<Rightarrow> bool" where
  "is_number v \<longleftrightarrow> (case v of PyInt _ \<Rightarrow> True | PyFloat _ \<Rightarrow> True | _ \<Rightarrow> False)"

definition averaged_column :: "config \<Rightarrow> TableData \<Rightarrow> TableData \<Rightarrow> string \<Rightarrow> bool" where
  "averaged_column cfg base target h \<longleftrightarrow>
     is_numeric_column cfg h \<and> column_values base h \<noteq> [] \<and> column_values target h \<noteq> []"

text \<open>
  Notions for a comparison call, each a part of \<open>compare_reports\<close> or of its loop: the
  names the loop runs over, the comparison mode, the test \<open>if base_table and target_table\<close>,
  the names that pass it, the outcomes of a pair of tables in a mode, and whether a name
  passes the test and its tables give at least one outcome.
\<close>

definition selected_names :: "py_runtime \<Rightarrow> report_parser \<Rightarrow> report_parser \<Rightarrow> string list option \<Rightarrow> string list" where
  "selected_names rt bp tp sel =
     (case sel of None \<Rightarrow> get_common_tables rt bp tp | Some ns \<Rightarrow> ns)"

definition report_mode :: "report_parser \<Rightarrow> report_parser \<Rightarrow> ComparisonType" where
  "report_mode bp tp =
     determine_comparison_type (report_type (metadata bp)) (report_type (metadata tp))"

definition both_present :: "report_parser \<Rightarrow> report_parser \<Rightarrow> string \<Rightarrow> bool" where
  "both_present bp tp n \<longleftrightarrow> truthy_table (get_table bp n) \<and> truthy_table (get_table tp n)"

definition compared_names :: "py_runtime \<Rightarrow> report_parser \<Rightarrow> report_parser \<Rightarrow> string list option \<Rightarrow> string list" where
  "compared_names rt bp tp sel = filter (both_present bp tp) (selected_names rt bp tp sel)"

definition table_outcomes ::
  "py_runtime \<Rightarrow> config \<Rightarrow> TableData \<Rightarrow> TableData \<Rightarrow> thresholds \<Rightarrow> ComparisonType
   \<Rightarrow> py_error + ComparisonResult list" where
  "table_outcomes rt cfg bt tt th ct =
     (if ct = CROSS_PLATFORM then compare_cross_platform rt cfg bt tt th
      else compare_same_platform rt cfg bt tt th)"

definition yields_outcomes ::
  "py_runtime \<Rightarrow> config \<Rightarrow> thresholds \<Rightarrow> ComparisonType \<Rightarrow> report_parser \<Rightarrow> report_parser
   \<Rightarrow> string \<Rightarrow> bool" where
  "yields_outcomes rt cfg th ct bp tp n \<longleftrightarrow>
     both_present bp tp n
     \<and> (case (get_table bp n, get_table tp n) of
          (Some bt, Some tt) \<Rightarrow>
            (case table_outcomes rt cfg bt tt th ct of Inr outs \<Rightarrow> outs \<noteq> [] | Inl e \<Rightarrow> False)
        | _ \<Rightarrow> False)"

text \<open>
  The selection rule as the specification words it, for comparison with \<open>compared_names\<close>:
  an empty or unspecified selection stands for the names present in both reports, any other
  selection for its own names, those not present in both reports left out.
\<close>

definition selection_as_claimed ::
  "py_runtime \<Rightarrow> report_parser \<Rightarrow> report_parser \<Rightarrow> string list option \<Rightarrow> bool" where
  "selection_as_claimed rt bp tp sel \<longleftrightarrow>
     (if sel = None \<or> sel = Some []
      then set (compared_names rt bp tp sel)
           = {n \<in> set (get_available_tables bp) \<inter> set (get_available_tables tp).
                both_present bp tp n}
      else compared_names rt bp tp sel
           = filter (both_present bp tp) (case sel of None \<Rightarrow> [] | Some ns \<Rightarrow> ns))"

text \<open>
  The comparison of the pair of tables of a name, as the loop of \<open>compare_reports\<close> runs
  it, and the table diffs it contributes (one, or none when there is no outcome).
\<close>

definition pair_diff ::
  "py_runtime \<Rightarrow> config \<Rightarrow> thresholds \<Rightarrow> ComparisonType \<Rightarrow> report_parser \<Rightarrow> report_parser
   \<Rightarrow> string \<Rightarrow> py_error + TableComparison option" where
  "pair_diff rt cfg th ct bp tp n =
     (case (get_table bp n, get_table tp n) of
        (Some bt, Some tt) \<Rightarrow> compare_tables rt cfg n bt tt th ct
      | _ \<Rightarrow> Inr None)"

definition diff_list :: "py_error + TableComparison option \<Rightarrow> TableComparison list" where
  "diff_list d = (case d of Inr (Some tc) \<Rightarrow> [tc] | _ \<Rightarrow> [])"

section \<open>Properties of value diffing\<close>

lemmas round_defs =
  round64_def float_limit_def quantize_def float_exponent_def half_even_def Let_def bit_length.simps

lemmas literal_defs =
  py_float_of_str_def py_int_of_str_def strip_def strip_num_def py_isspace_def num_space_def
  unsigned_float_def to_lower_def mantissa_val_def exponent_val_def is_exp_char_def scale10_def
  digits_val_def is_digit_def digit_val_def signed_digits_def digits_exceed_def

lemma round64_finite: "(\<exists>y. round64 x = Fin y) \<longleftrightarrow> \<bar>x\<bar> < of_int float_limit"
  by (simp add: round64_def)

lemma round64_not_nan: "round64 x \<noteq> NaN"
  by (simp add: round64_def)

lemma py_float_int:
  "py_float (PyInt i) =
     (if \<bar>i\<bar> < float_limit then Inr (round64 (of_int i)) else Inl OverflowError)"
proof -
  have e: "\<bar>real_of_int i\<bar> < of_int float_limit \<longleftrightarrow> \<bar>i\<bar> < float_limit"
    by (simp only: of_int_abs [symmetric] of_int_less_iff)
  show ?thesis
  proof (cases "\<bar>i\<bar> < float_limit")
    case True
    with e round64_finite [of "real_of_int i"] obtain y where "round64 (of_int i) = Fin y" by blast
    with True show ?thesis by simp
  next
    case False
    with e have "round64 (of_int i) = PInf \<or> round64 (of_int i) = NInf"
      by (simp add: round64_def)
    with False show ?thesis by auto
  qed
qed

declare py_float.simps(2) [simp del]

lemma py_float_of_str_error: "py_float_of_str s = Inl e \<Longrightarrow> e = ValueError"
  by (auto simp: py_float_of_str_def Let_def split: option.splits)

lemma py_float_error:
  "py_float v = Inl e \<Longrightarrow>
   caught e \<or> (e = OverflowError \<and> (\<exists>i. v = PyInt i \<and> float_limit \<le> \<bar>i\<bar>))"
proof (cases v)
  case (PyInt i)
  assume "py_float v = Inl e"
  then show ?thesis unfolding PyInt py_float_int by (auto split: if_splits)
next
  case (PyStr s)
  assume "py_float v = Inl e"
  with PyStr py_float_of_str_error [of s e] show ?thesis by (simp add: caught_def)
qed (simp_all add: caught_def)

lemma py_truediv_fabs: "b \<noteq> Fin 0 \<Longrightarrow> py_truediv a (fabs b) = Inr (fdiv a (fabs b))"
  by (cases b) (simp_all add: py_truediv_def)

lemma compare_values_numbers:
  "py_float bv = Inr b \<Longrightarrow> py_float tv = Inr t \<Longrightarrow>
   compare_values m bv tv th =
     Inr (classify m bv tv th (fsub t b)
            (if b = Fin 0 then None else Some (fmul (fdiv (fsub t b) (fabs b)) (Fin 100))))"
  by (simp add: compare_values_def py_truediv_fabs Let_def)

lemma compare_values_caught:
  assumes "py_float bv = Inl e \<or> (py_float bv = Inr b \<and> py_float tv = Inl e)" and "caught e"
  shows "compare_values m bv tv th = Inr (unquantifiable m bv tv)"
  using assms by (auto simp: compare_values_def)

lemma compare_values_raises:
  assumes "py_float bv = Inl e \<or> (py_float bv = Inr b \<and> py_float tv = Inl e)" and "\<not> caught e"
  shows "compare_values m bv tv th = Inl e"
  using assms by (auto simp: compare_values_def)

lemma compare_values_error:
  assumes "compare_values m bv tv th = Inl e"
  shows "e = OverflowError
       \<and> (\<exists>i. (bv = PyInt i \<or> tv = PyInt i) \<and> float_limit \<le> \<bar>i\<bar>)"
proof (cases "py_float bv")
  case (Inl e')
  with assms have "e' = e" "\<not> caught e" by (auto simp: compare_values_def split: if_splits)
  with py_float_error [OF Inl] show ?thesis by auto
next
  case (Inr b)
  show ?thesis
  proof (cases "py_float tv")
    case (Inl e')
    with assms Inr have "e' = e" "\<not> caught e" by (auto simp: compare_values_def split: if_splits)
    with py_float_error [OF Inl] show ?thesis by auto
  next
    case Inr2: (Inr t)
    from assms show ?thesis unfolding compare_values_numbers [OF Inr Inr2] by simp
  qed
qed

lemma compare_values_formulas:
  assumes "py_float bv = Inr (Fin b)" and "py_float tv = Inr (Fin t)"
  shows "\<exists>r. compare_values m bv tv th = Inr r
           \<and> absolute_change r = Some (round64 (t - b))
           \<and> (b = 0 \<longrightarrow> percent_change r = None)
           \<and> (b \<noteq> 0 \<longrightarrow>
                (\<forall>a q. round64 (t - b) = Fin a \<and> round64 (a / \<bar>b\<bar>) = Fin q \<longrightarrow>
                   percent_change r = Some (round64 (q * 100))))"
  unfolding compare_values_numbers [OF assms]
  by (auto simp: classify_def fsub_def)

lemma compare_values_example:
  "\<exists>r. compare_values ''Executions'' (PyInt (- 4)) (PyInt (- 6)) th = Inr r
       \<and> absolute_change r = Some (Fin (- 2)) \<and> percent_change r = Some (Fin (- 50))"
proof -
  have b: "py_float (PyInt (- 4)) = Inr (Fin (- 4))" and t: "py_float (PyInt (- 6)) = Inr (Fin (- 6))"
    by (simp_all add: py_float.simps(2) round_defs)
  have 1: "round64 (- 6 - (- 4)) = Fin (- 2)" by (simp add: round_defs)
  have 2: "round64 (- 2 / \<bar>- 4\<bar>) = Fin (- 1 / 2)" by (simp add: round_defs)
  have 3: "round64 (- 1 / 2 * 100) = Fin (- 50)" by (simp add: round_defs)
  from compare_values_formulas [OF b t, of "''Executions''" th] 1 2 3 show ?thesis
    by auto
qed

lemma compare_values_flags:
  "compare_values m bv tv th = Inr r \<Longrightarrow>
   is_warning r = fst (flags th (percent_change r))
   \<and> is_critical r = snd (flags th (percent_change r))"
  by (auto simp: compare_values_def unquantifiable_def classify_def flags_def Let_def
           split: sum.splits if_splits)

lemma flags_finite:
  "flags th (Some (Fin x)) =
     (let W = (case th ''warning_percent'' of None \<Rightarrow> 15 | Some w \<Rightarrow> w);
          C = (case th ''critical_percent'' of None \<Rightarrow> 30 | Some c \<Rightarrow> c)
      in if C \<le> \<bar>x\<bar> then (False, True) else if W \<le> \<bar>x\<bar> then (True, False) else (False, False))"
  by (simp add: flags_def threshold_get_def Let_def)

lemma flags_special:
  "flags th (Some PInf) = (False, True)" "flags th (Some NInf) = (False, True)"
  "flags th (Some NaN) = (False, False)"
  by (simp_all add: flags_def Let_def)

text \<open>
  C2. For an outcome of value diffing with a percent change \<open>pc\<close>, under the thresholds
  \<open>W\<close> (warning, 15 when the call gives none) and \<open>C\<close> (critical, 30 when the call gives
  none): the outcome is critical exactly when \<open>|pc| \<ge> C\<close>, an infinite percent change
  counting as beyond every threshold and a NaN as below; it is a warning exactly when
  \<open>C > |pc| \<ge> W\<close>; it is never both; and its flags are those the classification of the
  source gives \<open>pc\<close>. With \<open>W = 15\<close> and \<open>C = 30\<close> that classification makes a percent
  change of 30 or -30 critical, one of 29.999 or -29.999 a warning only, and one of 14.999
  or -14.999 neither.
\<close>

theorem compare_values_classification:
  assumes "compare_values m bv tv th = Inr r" and "percent_change r = Some pc"
    and "W = (case th ''warning_percent'' of None \<Rightarrow> 15 | Some w \<Rightarrow> w)"
    and "C = (case th ''critical_percent'' of None \<Rightarrow> 30 | Some c \<Rightarrow> c)"
  shows "(is_critical r \<longleftrightarrow> (case pc of Fin x \<Rightarrow> C \<le> \<bar>x\<bar> | NaN \<Rightarrow> False | _ \<Rightarrow> True))
       \<and> (is_warning r \<longleftrightarrow> (case pc of Fin x \<Rightarrow> W \<le> \<bar>x\<bar> \<and> \<bar>x\<bar> < C | _ \<Rightarrow> False))
       \<and> \<not> (is_warning r \<and> is_critical r)
       \<and> is_warning r = fst (flags th (Some pc)) \<and> is_critical r = snd (flags th (Some pc))
       \<and> (W = 15 \<and> C = 30 \<longrightarrow>
            flags th (Some (Fin 30)) = (False, True)
          \<and> flags th (Some (Fin (- 30))) = (False, True)
          \<and> flags th (Some (Fin 29.999)) = (True, False)
          \<and> flags th (Some (Fin (- 29.999))) = (True, False)
          \<and> flags th (Some (Fin 14.999)) = (False, False)
          \<and> flags th (Some (Fin (- 14.999))) = (False, False))"
proof -
  from compare_values_flags [OF assms(1)] assms(2)
  have w: "is_warning r = fst (flags th (Some pc))"
    and c: "is_critical r = snd (flags th (Some pc))"
    by simp_all
  have 1: "is_critical r \<longleftrightarrow> (case pc of Fin x \<Rightarrow> C \<le> \<bar>x\<bar> | NaN \<Rightarrow> False | _ \<Rightarrow> True)"
    unfolding c assms(3,4) by (cases pc) (simp_all add: flags_finite flags_special Let_def)
  have 2: "is_warning r \<longleftrightarrow> (case pc of Fin x \<Rightarrow> W \<le> \<bar>x\<bar> \<and> \<bar>x\<bar> < C | _ \<Rightarrow> False)"
    unfolding w assms(3,4) by (cases pc) (auto simp: flags_finite flags_special Let_def)
  have 3: "\<not> (is_warning r \<and> is_critical r)"
    unfolding 1 2 by (cases pc) auto
  have 4: "W = 15 \<and> C = 30 \<longrightarrow>
            flags th (Some (Fin 30)) = (False, True)
          \<and> flags th (Some (Fin (- 30))) = (False, True)
          \<and> flags th (Some (Fin 29.999)) = (True, False)
          \<and> flags th (Some (Fin (- 29.999))) = (True, False)
          \<and> flags th (Some (Fin 14.999)) = (False, False)
          \<and> flags th (Some (Fin (- 14.999))) = (False, False)"
    unfolding assms(3,4) flags_finite Let_def by auto
  from 1 2 3 4 w c show ?thesis by blast
qed

lemma example_percent:
  "py_float (PyInt 1000) = Inr (Fin 1000) \<and> py_float (PyInt 1300) = Inr (Fin 1300)
   \<and> fmul (fdiv (fsub (Fin 1300) (Fin 1000)) (fabs (Fin 1000))) (Fin 100) = Fin 30"
  "py_float (PyInt 1000) = Inr (Fin 1000) \<and> py_float (PyInt 700) = Inr (Fin 700)
   \<and> fmul (fdiv (fsub (Fin 700) (Fin 1000)) (fabs (Fin 1000))) (Fin 100) = Fin (- 30)"
  "py_float (PyInt 100000) = Inr (Fin 100000) \<and> py_float (PyInt 129999) = Inr (Fin 129999)
   \<and> fmul (fdiv (fsub (Fin 129999) (Fin 100000)) (fabs (Fin 100000))) (Fin 100)
     = Fin (8443967826342969 / 281474976710656)"
  "py_float (PyInt 8) = Inr (Fin 8) \<and> py_float (PyInt 9) = Inr (Fin 9)
   \<and> fmul (fdiv (fsub (Fin 9) (Fin 8)) (fabs (Fin 8))) (Fin 100) = Fin 12.5"
  "py_float (PyInt (- 4)) = Inr (Fin (- 4)) \<and> py_float (PyInt (- 5)) = Inr (Fin (- 5))
   \<and> fmul (fdiv (fsub (Fin (- 5)) (Fin (- 4))) (fabs (Fin (- 4)))) (Fin 100) = Fin (- 25)"
  by (simp_all add: fsub_def py_float.simps(2) round_defs)

lemma compare_values_percent:
  assumes "py_float bv = Inr b \<and> py_float tv = Inr t
           \<and> fmul (fdiv (fsub t b) (fabs b)) (Fin 100) = pc" and "b \<noteq> Fin 0"
  obtains r where "compare_values m bv tv th = Inr r" and "percent_change r = Some pc"
    and "base_value r = bv" and "target_value r = tv" and "metric_name r = m"
    and "absolute_change r = Some (fsub t b)"
  using assms by (simp add: compare_values_numbers classify_def)

theorem compare_values_classification_witness:
  "(\<exists>r. compare_values ''Per Second'' (PyInt 1000) (PyInt 1300) example_thresholds = Inr r
        \<and> percent_change r = Some (Fin 30) \<and> is_critical r \<and> \<not> is_warning r)
   \<and> (\<exists>r. compare_values ''Per Second'' (PyInt 1000) (PyInt 700) example_thresholds = Inr r
        \<and> percent_change r = Some (Fin (- 30)) \<and> is_critical r \<and> \<not> is_warning r)
   \<and> (\<exists>r. compare_values ''Per Second'' (PyInt 100000) (PyInt 129999) example_thresholds = Inr r
        \<and> percent_change r = Some (Fin (8443967826342969 / 281474976710656))
        \<and> is_warning r \<and> \<not> is_critical r)
   \<and> (\<exists>r. compare_values ''Per Second'' (PyInt 8) (PyInt 9) Map.empty = Inr r
        \<and> percent_change r = Some (Fin 12.5) \<and> \<not> is_warning r \<and> \<not> is_critical r)
   \<and> (\<exists>r. compare_values ''Per Second'' (PyInt 8) (PyInt 9) example_custom_thresholds = Inr r
        \<and> percent_change r = Some (Fin 12.5) \<and> is_warning r \<and> \<not> is_critical r)
   \<and> (\<exists>r. compare_values ''Per Second'' (PyInt (- 4)) (PyInt (- 5)) Map.empty = Inr r
        \<and> percent_change r = Some (Fin (- 25)) \<and> is_warning r \<and> \<not> is_critical r)
   \<and> (\<exists>r. compare_values ''Per Second'' (PyInt (- 4)) (PyInt (- 5)) example_custom_thresholds
          = Inr r
        \<and> percent_change r = Some (Fin (- 25)) \<and> is_critical r \<and> \<not> is_warning r)"
proof -
  note T = compare_values_classification [OF _ _ refl refl]
  obtain r1 where r1: "compare_values ''Per Second'' (PyInt 1000) (PyInt 1300)
      example_thresholds = Inr r1" and p1: "percent_change r1 = Some (Fin 30)"
    by (rule compare_values_percent [OF example_percent(1)]) simp
  from T [OF r1 p1] have f1: "is_critical r1" "\<not> is_warning r1"
    by (simp_all add: example_thresholds_def)
  obtain r2 where r2: "compare_values ''Per Second'' (PyInt 1000) (PyInt 700)
      example_thresholds = Inr r2" and p2: "percent_change r2 = Some (Fin (- 30))"
    by (rule compare_values_percent [OF example_percent(2)]) simp
  from T [OF r2 p2] have f2: "is_critical r2" "\<not> is_warning r2"
    by (simp_all add: example_thresholds_def)
  obtain r3 where r3: "compare_values ''Per Second'' (PyInt 100000) (PyInt 129999)
      example_thresholds = Inr r3"
    and p3: "percent_change r3 = Some (Fin (8443967826342969 / 281474976710656))"
    by (rule compare_values_percent [OF example_percent(3)]) simp
  from T [OF r3 p3] have f3: "is_warning r3" "\<not> is_critical r3"
    by (simp_all add: example_thresholds_def)
  obtain r4 where r4: "compare_values ''Per Second'' (PyInt 8) (PyInt 9) Map.empty = Inr r4"
    and p4: "percent_change r4 = Some (Fin 12.5)"
    by (rule compare_values_percent [OF example_percent(4)]) simp
  from T [OF r4 p4] have f4: "\<not> is_warning r4" "\<not> is_critical r4" by simp_all
  obtain r5 where r5: "compare_values ''Per Second'' (PyInt 8) (PyInt 9)
      example_custom_thresholds = Inr r5" and p5: "percent_change r5 = Some (Fin 12.5)"
    by (rule compare_values_percent [OF example_percent(4)]) simp
  from T [OF r5 p5] have f5: "is_warning r5" "\<not> is_critical r5"
    by (simp_all add: example_custom_thresholds_def)
  obtain r6 where r6: "compare_values ''Per Second'' (PyInt (- 4)) (PyInt (- 5)) Map.empty
      = Inr r6" and p6: "percent_change r6 = Some (Fin (- 25))"
    by (rule compare_values_percent [OF example_percent(5)]) simp
  from T [OF r6 p6] have f6: "is_warning r6" "\<not> is_critical r6" by simp_all
  obtain r7 where r7: "compare_values ''Per Second'' (PyInt (- 4)) (PyInt (- 5))
      example_custom_thresholds = Inr r7" and p7: "percent_change r7 = Some (Fin (- 25))"
    by (rule compare_values_percent [OF example_percent(5)]) simp
  from T [OF r7 p7] have f7: "is_critical r7" "\<not> is_warning r7"
    by (simp_all add: example_custom_thresholds_def)
  have c1: "\<exists>r. compare_values ''Per Second'' (PyInt 1000) (PyInt 1300) example_thresholds
         = Inr r \<and> percent_change r = Some (Fin 30) \<and> is_critical r \<and> \<not> is_warning r"
    using r1 p1 f1 by (intro exI [of _ r1] conjI)
  have c2: "\<exists>r. compare_values ''Per Second'' (PyInt 1000) (PyInt 700) example_thresholds
         = Inr r \<and> percent_change r = Some (Fin (- 30)) \<and> is_critical r \<and> \<not> is_warning r"
    using r2 p2 f2 by (intro exI [of _ r2] conjI)
  have c3: "\<exists>r. compare_values ''Per Second'' (PyInt 100000) (PyInt 129999) example_thresholds
         = Inr r \<and> percent_change r = Some (Fin (8443967826342969 / 281474976710656))
        \<and> is_warning r \<and> \<not> is_critical r"
    using r3 p3 f3 by (intro exI [of _ r3] conjI)
  have c4: "\<exists>r. compare_values ''Per Second'' (PyInt 8) (PyInt 9) Map.empty = Inr r
        \<and> percent_change r = Some (Fin 12.5) \<and> \<not> is_warning r \<and> \<not> is_critical r"
    using r4 p4 f4 by (intro exI [of _ r4] conjI)
  have c5: "\<exists>r. compare_values ''Per Second'' (PyInt 8) (PyInt 9) example_custom_thresholds = Inr r
        \<and> percent_change r = Some (Fin 12.5) \<and> is_warning r \<and> \<not> is_critical r"
    using r5 p5 f5 by (intro exI [of _ r5] conjI)
  have c6: "\<exists>r. compare_values ''Per Second'' (PyInt (- 4)) (PyInt (- 5)) Map.empty = Inr r
        \<and> percent_change r = Some (Fin (- 25)) \<and> is_warning r \<and> \<not> is_critical r"
    using r6 p6 f6 by (intro exI [of _ r6] conjI)
  have c7: "\<exists>r. compare_values ''Per Second'' (PyInt (- 4)) (PyInt (- 5)) example_custom_thresholds
          = Inr r
        \<and> percent_change r = Some (Fin (- 25)) \<and> is_critical r \<and> \<not> is_warning r"
    using r7 p7 f7 by (intro exI [of _ r7] conjI)
  from c1 c2 c3 c4 c5 c6 c7 show ?thesis by (intro conjI)
qed

section \<open>Properties of value normalisation\<close>

lemma dropWhile_Cons_split:
  assumes "dropWhile P xs = y # ys"
  shows "\<not> P y \<and> set xs = set (takeWhile P xs) \<union> insert y (set ys)"
proof -
  from assms have "dropWhile P xs \<noteq> []" by simp
  from hd_dropWhile [OF this] assms have 1: "\<not> P y" by simp
  have "set (takeWhile P xs @ dropWhile P xs) = set (takeWhile P xs) \<union> insert y (set ys)"
    unfolding assms by simp
  then have "set xs = set (takeWhile P xs) \<union> insert y (set ys)"
    by (simp only: takeWhile_dropWhile_id)
  with 1 show ?thesis by simp
qed

lemma dropWhile_Nil_take: "dropWhile P xs = [] \<Longrightarrow> takeWhile P xs = xs"
  by (simp add: dropWhile_eq_Nil_conv)

lemma digitpart_ok_chars: "digitpart_ok s \<Longrightarrow> c \<in> set s \<Longrightarrow> is_digit c \<or> c = CHR ''_''"
  by (induction s rule: digitpart_ok.induct) (auto split: if_splits)

lemma digitpart_ok_literal: "digitpart_ok s \<Longrightarrow> c \<in> set s \<Longrightarrow> literal_char c"
  unfolding literal_char_def using digitpart_ok_chars by blast

lemma signed_digits_chars:
  assumes "signed_digits t = Some r" shows "t \<noteq> [] \<and> (\<forall>c\<in>set t. literal_char c)"
proof (cases t)
  case Nil
  with assms show ?thesis by (simp add: signed_digits_def)
next
  case (Cons c cs)
  show ?thesis
  proof (cases "c = CHR ''-'' \<or> c = CHR ''+''")
    case True
    with assms Cons have "digitpart_ok cs"
      by (auto simp: signed_digits_def split: if_splits)
    then have "\<forall>x\<in>set cs. literal_char x" using digitpart_ok_literal by blast
    moreover from True have "literal_char c" by (auto simp: literal_char_def)
    ultimately show ?thesis using Cons by simp
  next
    case False
    with assms Cons have "digitpart_ok t"
      by (auto simp: signed_digits_def split: if_splits)
    then have "\<forall>x\<in>set t. literal_char x" using digitpart_ok_literal by blast
    with Cons show ?thesis by simp
  qed
qed

lemma mantissa_val_chars:
  assumes "mantissa_val m = Some v" shows "m \<noteq> [] \<and> (\<forall>c\<in>set m. literal_char c)"
proof (cases "dropWhile (\<lambda>c. c \<noteq> CHR ''.'') m")
  case Nil
  then have ip: "takeWhile (\<lambda>c. c \<noteq> CHR ''.'') m = m" by (rule dropWhile_Nil_take)
  from assms have "digitpart_ok m"
    unfolding mantissa_val_def Let_def Nil ip by (simp split: if_splits)
  then show ?thesis using digitpart_ok_literal by fastforce
next
  case (Cons d fp)
  let ?ip = "takeWhile (\<lambda>c. c \<noteq> CHR ''.'') m"
  from dropWhile_Cons_split [OF Cons]
  have d: "d = CHR ''.''" and s: "set m = set ?ip \<union> insert d (set fp)" by simp_all
  from assms have ok: "(?ip = [] \<or> digitpart_ok ?ip) \<and> (fp = [] \<or> digitpart_ok fp)"
    unfolding mantissa_val_def Let_def Cons by (simp split: if_splits)
  have 1: "\<forall>c\<in>set ?ip. literal_char c" using ok digitpart_ok_literal by fastforce
  have 2: "\<forall>c\<in>set fp. literal_char c" using ok digitpart_ok_literal by fastforce
  have 3: "literal_char d" using d by (simp add: literal_char_def)
  from s 1 2 3 have "\<forall>c\<in>set m. literal_char c" by blast
  moreover from s have "m \<noteq> []" by auto
  ultimately show ?thesis by simp
qed

lemma exponent_val_chars:
  assumes "exponent_val (x # ds) = Some e" shows "\<forall>c\<in>set ds. literal_char c"
proof -
  from assms obtain r where "signed_digits ds = Some r"
    by (auto simp: exponent_val_def split: option.splits)
  then show ?thesis using signed_digits_chars by blast
qed

lemma special_last:
  assumes "map to_lower u = w" and "w \<noteq> []"
  shows "u \<noteq> [] \<and> to_lower (last u) = last w"
proof -
  from assms have ne: "u \<noteq> []" by auto
  then have "to_lower (last u) = last (map to_lower u)" by (simp add: last_map)
  with ne assms(1) show ?thesis by simp
qed

lemma unsigned_float_last:
  assumes "unsigned_float u = Some f" shows "u \<noteq> [] \<and> final_ok (last u)"
proof -
  consider (inf) "map to_lower u = ''inf''" | (infinity) "map to_lower u = ''infinity''"
    | (nan) "map to_lower u = ''nan''"
    | (num) "map to_lower u \<noteq> ''inf''" "map to_lower u \<noteq> ''infinity''" "map to_lower u \<noteq> ''nan''"
    by blast
  then show ?thesis
  proof cases
    case inf
    from special_last [OF inf] show ?thesis by (simp add: final_ok_def)
  next
    case infinity
    from special_last [OF infinity] show ?thesis by (simp add: final_ok_def)
  next
    case nan
    from special_last [OF nan] show ?thesis by (simp add: final_ok_def)
  next
    case num
    let ?m = "takeWhile (\<lambda>c. \<not> is_exp_char c) u" and ?ex = "dropWhile (\<lambda>c. \<not> is_exp_char c) u"
    from num assms obtain v e where mv: "mantissa_val ?m = Some v" and ev: "exponent_val ?ex = Some e"
      unfolding unsigned_float_def Let_def by (simp split: option.splits)
    from mantissa_val_chars [OF mv] have m: "?m \<noteq> []" "\<forall>c\<in>set ?m. literal_char c" by simp_all
    have all: "\<forall>c\<in>set u. literal_char c"
    proof (cases ?ex)
      case Nil
      then have "?m = u" by (rule dropWhile_Nil_take)
      with m(2) show ?thesis by simp
    next
      case (Cons x xs)
      from dropWhile_Cons_split [OF Cons]
      have x: "is_exp_char x" and s: "set u = set ?m \<union> insert x (set xs)" by simp_all
      from ev have "\<forall>c\<in>set xs. literal_char c" unfolding Cons by (rule exponent_val_chars)
      moreover from x have "literal_char x" by (simp add: literal_char_def)
      ultimately show ?thesis using s m(2) by blast
    qed
    from m(1) have ne: "u \<noteq> []" by auto
    with all have "literal_char (last u)" by simp
    with ne show ?thesis by (simp add: final_ok_def)
  qed
qed

lemma unsigned_float_Nil: "unsigned_float [] = None"
  by (simp add: unsigned_float_def mantissa_val_def)

lemma py_float_of_str_last:
  assumes "py_float_of_str s = Inr f"
  shows "strip_num s \<noteq> [] \<and> final_ok (last (strip_num s))"
proof -
  let ?t = "strip_num s"
  let ?u = "if ?t \<noteq> [] \<and> (hd ?t = CHR ''-'' \<or> hd ?t = CHR ''+'') then tl ?t else ?t"
  from assms obtain g where g: "unsigned_float ?u = Some g"
    unfolding py_float_of_str_def Let_def by (simp split: option.splits)
  from unsigned_float_last [OF g] have u: "?u \<noteq> []" "final_ok (last ?u)" by simp_all
  from u(1) have t: "?t \<noteq> []" by (auto split: if_splits)
  have "last ?u = last ?t" using u(1) by (simp add: last_tl split: if_splits)
  with u(2) t show ?thesis by simp
qed

lemma py_int_of_str_last:
  assumes "py_int_of_str rt s = Inr i"
  shows "strip_num s \<noteq> [] \<and> final_ok (last (strip_num s))"
proof -
  from assms obtain r where "signed_digits (strip_num s) = Some r"
    unfolding py_int_of_str_def Let_def by (simp split: option.splits)
  from signed_digits_chars [OF this]
  show ?thesis by (simp add: final_ok_def)
qed

lemma trim_keeps:
  assumes "s \<noteq> []" "\<not> P (hd s)" "\<not> P (last s)"
  shows "rev (dropWhile P (rev (dropWhile P s))) = s"
proof -
  from assms(1,2) have 1: "dropWhile P s = s" by (cases s) simp_all
  from assms(1,3) have 2: "dropWhile P (rev s) = rev s"
    by (cases "rev s") (simp_all add: hd_rev [symmetric])
  show ?thesis by (simp add: 1 2)
qed

lemma trim_last:
  assumes "s \<noteq> []" "\<not> P (last s)"
  shows "rev (dropWhile P (rev (dropWhile P s))) \<noteq> []
       \<and> last (rev (dropWhile P (rev (dropWhile P s)))) = last s"
proof -
  let ?d = "dropWhile P s"
  from assms have "last s \<in> set s" by simp
  with assms(2) have dne: "?d \<noteq> []" by (auto simp: dropWhile_eq_Nil_conv)
  from dne have "last (takeWhile P s @ ?d) = last ?d" by (rule last_appendR)
  then have ld: "last ?d = last s" by simp
  from dne ld assms(2) have "dropWhile P (rev ?d) = rev ?d"
    by (cases "rev ?d") (simp_all add: hd_rev [symmetric])
  with dne ld show ?thesis by simp
qed

lemma strip_keeps:
  "s \<noteq> [] \<Longrightarrow> \<not> py_isspace (hd s) \<Longrightarrow> \<not> py_isspace (last s) \<Longrightarrow> strip s = s"
  unfolding strip_def by (rule trim_keeps)

lemma strip_num_keeps:
  "s \<noteq> [] \<Longrightarrow> \<not> num_space (hd s) \<Longrightarrow> \<not> num_space (last s) \<Longrightarrow> strip_num s = s"
  unfolding strip_num_def by (rule trim_keeps)

lemma strip_num_last:
  "s \<noteq> [] \<Longrightarrow> \<not> num_space (last s) \<Longrightarrow> strip_num s \<noteq> [] \<and> last (strip_num s) = last s"
  unfolding strip_num_def by (rule trim_last)

lemma py_int_of_str_error: "py_int_of_str rt s = Inl e \<Longrightarrow> e = ValueError"
  unfolding py_int_of_str_def Let_def by (simp split: option.splits prod.splits if_splits)

lemma parse_number_error: "parse_number rt vc = Inl e \<Longrightarrow> e = ValueError"
  unfolding parse_number_def
  by (auto split: if_splits sum.splits dest: py_float_of_str_error py_int_of_str_error)

lemma parse_number_bad_last:
  assumes "vc \<noteq> []" "\<not> num_space (last vc)" "\<not> final_ok (last vc)"
  shows "parse_number rt vc = Inl ValueError"
proof -
  from strip_num_last [OF assms(1,2)] assms(3)
  have bad: "\<not> (strip_num vc \<noteq> [] \<and> final_ok (last (strip_num vc)))" by simp
  have "\<not> (\<exists>x. parse_number rt vc = Inr x)"
  proof
    assume "\<exists>x. parse_number rt vc = Inr x"
    then have "(\<exists>f. py_float_of_str vc = Inr f) \<or> (\<exists>i. py_int_of_str rt vc = Inr i)"
      unfolding parse_number_def by (auto split: if_splits sum.splits)
    with bad show False using py_float_of_str_last py_int_of_str_last by blast
  qed
  then obtain e where "parse_number rt vc = Inl e" by (cases "parse_number rt vc") auto
  with parse_number_error show ?thesis by blast
qed

lemma digit_char_digit: "d < 10 \<Longrightarrow> is_digit (digit_char d) \<and> digit_val (digit_char d) = d"
  by (simp add: is_digit_def digit_val_def digit_char_def)

lemma dec_str_nonempty: "dec_str n \<noteq> []"
  by (subst dec_str.simps) simp

lemma dec_str_digits: "c \<in> set (dec_str n) \<Longrightarrow> is_digit c"
proof (induction n rule: dec_str.induct)
  case (1 n)
  show ?case
  proof (cases "n < 10")
    case True
    with "1.prems" show ?thesis by (subst (asm) dec_str.simps) (simp add: digit_char_digit)
  next
    case False
    with "1.prems" have "c \<in> set (dec_str (n div 10)) \<or> c = digit_char (n mod 10)"
      by (subst (asm) dec_str.simps) auto
    with False "1.IH" show ?thesis by (auto simp: digit_char_digit)
  qed
qed

lemma digits_val_snoc:
  "is_digit c \<Longrightarrow> digits_val (ds @ [c]) = 10 * digits_val ds + digit_val c"
  by (simp add: digits_val_def)

lemma digits_val_dec_str: "digits_val (dec_str n) = n"
proof (induction n rule: dec_str.induct)
  case (1 n)
  show ?case
  proof (cases "n < 10")
    case True
    then show ?thesis
      by (subst dec_str.simps) (simp add: digits_val_def digit_char_digit)
  next
    case False
    have "digits_val (dec_str n) = digits_val (dec_str (n div 10) @ [digit_char (n mod 10)])"
      using False by (subst dec_str.simps) simp
    also have "\<dots> = 10 * digits_val (dec_str (n div 10)) + digit_val (digit_char (n mod 10))"
      by (rule digits_val_snoc) (simp add: digit_char_digit)
    also have "\<dots> = 10 * (n div 10) + n mod 10"
      using False "1.IH" by (simp add: digit_char_digit)
    finally show ?thesis by simp
  qed
qed

lemma is_digit_not_underscore: "is_digit c \<Longrightarrow> c \<noteq> CHR ''_''"
  by (auto simp: is_digit_def)

lemma digitpart_ok_all_digits: "s \<noteq> [] \<Longrightarrow> \<forall>c\<in>set s. is_digit c \<Longrightarrow> digitpart_ok s"
  by (induction s rule: digitpart_ok.induct) (auto dest: is_digit_not_underscore)

lemma is_digit_plain:
  "is_digit c \<Longrightarrow>
   \<not> py_isspace c \<and> \<not> num_space c \<and> c \<noteq> CHR '','' \<and> c \<noteq> CHR ''.'' \<and> c \<noteq> CHR ''-''
   \<and> c \<noteq> CHR ''+''"
  by (auto simp: is_digit_def py_isspace_def num_space_def Let_def)

lemma py_int_of_str_digits:
  assumes "s \<noteq> []" "\<forall>c\<in>set s. is_digit c"
  shows "py_int_of_str rt s =
           (if digits_exceed rt (length s) then Inl ValueError else Inr (int (digits_val s)))"
proof -
  from assms have h: "is_digit (hd s)" and l: "is_digit (last s)" by simp_all
  with assms(1) have st: "strip_num s = s" by (intro strip_num_keeps) (simp_all add: is_digit_plain)
  from assms(1) obtain c cs where s: "s = c # cs" by (cases s) auto
  with h have c: "c \<noteq> CHR ''-''" "c \<noteq> CHR ''+''" by (auto dest: is_digit_plain)
  from assms have "digitpart_ok s" by (rule digitpart_ok_all_digits)
  with s c have sd: "signed_digits s = Some (False, digits_val s)"
    by (simp add: signed_digits_def)
  from assms(2) have f: "filter is_digit s = s" by simp
  show ?thesis unfolding py_int_of_str_def st Let_def sd f by simp
qed

lemma commas3_filter: "remove_commas (commas3 ds) = remove_commas ds"
  by (induction ds rule: commas3.induct) (simp_all add: remove_commas_def)

lemma commas3_nonempty: "ds \<noteq> [] \<Longrightarrow> commas3 ds \<noteq> []"
  by (induction ds rule: commas3.induct) simp_all

lemma commas3_hd: "ds \<noteq> [] \<Longrightarrow> hd (commas3 ds) = hd ds"
  by (induction ds rule: commas3.induct) simp_all

lemma commas3_last: "ds \<noteq> [] \<Longrightarrow> last (commas3 ds) = last ds"
  by (induction ds rule: commas3.induct) (simp_all add: commas3_nonempty)

lemma remove_commas_digits: "\<forall>c\<in>set ds. is_digit c \<Longrightarrow> remove_commas ds = ds"
  by (induction ds) (auto simp: remove_commas_def dest: is_digit_plain)

lemma remove_commas_rev: "remove_commas (rev s) = rev (remove_commas s)"
  by (simp add: remove_commas_def rev_filter)

lemma thousands_clean: "remove_commas (thousands n) = dec_str n"
proof -
  have "\<forall>c\<in>set (rev (dec_str n)). is_digit c" using dec_str_digits by simp
  then have "remove_commas (rev (dec_str n)) = rev (dec_str n)" by (rule remove_commas_digits)
  then show ?thesis by (simp add: thousands_def remove_commas_rev commas3_filter)
qed

lemma thousands_ends:
  "thousands n \<noteq> [] \<and> is_digit (hd (thousands n)) \<and> is_digit (last (thousands n))"
proof -
  let ?r = "rev (dec_str n)"
  have ne: "?r \<noteq> []" using dec_str_nonempty by simp
  then have cne: "commas3 ?r \<noteq> []" by (rule commas3_nonempty)
  have "hd (thousands n) = last (commas3 ?r)" using cne by (simp add: thousands_def hd_rev)
  also have "\<dots> = last ?r" using ne by (rule commas3_last)
  finally have h: "hd (thousands n) \<in> set (dec_str n)" using ne by (metis last_in_set set_rev)
  have "last (thousands n) = hd (commas3 ?r)" using cne by (simp add: thousands_def last_rev)
  also have "\<dots> = hd ?r" using ne by (rule commas3_hd)
  finally have l: "last (thousands n) \<in> set (dec_str n)" using ne by (metis hd_in_set set_rev)
  from cne h l show ?thesis by (simp add: thousands_def dec_str_digits)
qed

lemma parse_number_decimal:
  "parse_number rt (dec_str n) =
     (if digits_exceed rt (length (dec_str n)) then Inl ValueError else Inr (PyInt (int n)))"
proof -
  have dot: "CHR ''.'' \<notin> set (dec_str n)" using dec_str_digits is_digit_plain by blast
  have "py_int_of_str rt (dec_str n) =
          (if digits_exceed rt (length (dec_str n)) then Inl ValueError
           else Inr (int (digits_val (dec_str n))))"
    using dec_str_nonempty dec_str_digits by (intro py_int_of_str_digits) simp_all
  then show ?thesis using dot by (simp add: parse_number_def digits_val_dec_str)
qed

lemma is_digit_final: "is_digit c \<Longrightarrow> c \<noteq> CHR ''%'' \<and> c \<notin> fst ` set multipliers"
  by (auto simp: is_digit_def multipliers_def)

lemma suffix_loop_other:
  "vc \<noteq> [] \<Longrightarrow> last vc \<notin> fst ` set ms \<Longrightarrow> suffix_loop ms vc = None"
  by (induction ms vc rule: suffix_loop.induct) auto

lemma normalize_value_thousands:
  "normalize_value rt (thousands n) =
     (if digits_exceed rt (length (dec_str n)) then Inr (PyStr (thousands n))
      else Inr (PyInt (int n)))"
proof -
  let ?s = "thousands n"
  from thousands_ends [of n] have st: "strip ?s = ?s"
    by (intro strip_keeps) (simp_all add: is_digit_plain)
  from thousands_ends [of n] have ne: "?s \<noteq> []" by simp
  show ?thesis
  proof (cases "digits_exceed rt (length (dec_str n))")
    case False
    then show ?thesis
      using ne by (simp add: normalize_value_def st thousands_clean Let_def parse_number_decimal)
  next
    case True
    from thousands_ends [of n] have "last ?s \<noteq> CHR ''%''" by (simp add: is_digit_final)
    then have p: "percent_rule ?s = None" by (simp add: percent_rule_def)
    have "last (dec_str n) \<notin> fst ` set multipliers"
      using dec_str_digits [of "last (dec_str n)" n] dec_str_nonempty [of n]
      by (simp add: is_digit_final)
    with dec_str_nonempty have s: "suffix_loop multipliers (dec_str n) = None"
      by (intro suffix_loop_other)
    from True ne p s show ?thesis
      by (simp add: normalize_value_def st thousands_clean Let_def parse_number_decimal)
  qed
qed

lemma digit_char_0: "digit_char 0 = CHR ''0''" and digit_char_1: "digit_char (Suc 0) = CHR ''1''"
  by (simp_all add: digit_char_def char_of_eq_iff)

lemma dec_str_power10: "dec_str (10 ^ k) = CHR ''1'' # replicate k (CHR ''0'')"
proof (induction k)
  case 0
  show ?case by (subst dec_str.simps) (simp add: digit_char_1)
next
  case (Suc k)
  have "dec_str (10 ^ Suc k) = dec_str (10 ^ k) @ [digit_char 0]"
    by (subst dec_str.simps) simp
  also have "\<dots> = CHR ''1'' # (replicate k (CHR ''0'') @ [CHR ''0''])"
    by (simp add: Suc digit_char_0)
  also have "replicate k (CHR ''0'') @ [CHR ''0''] = replicate (Suc k) (CHR ''0'')"
    by (simp add: replicate_append_same)
  finally show ?case .
qed

lemma normalize_value_decimal:
  "normalize_value rt (dec_str n) =
     (if digits_exceed rt (length (dec_str n)) then Inr (PyStr (dec_str n))
      else Inr (PyInt (int n)))"
proof -
  let ?s = "dec_str n"
  have e: "?s \<noteq> []" "is_digit (hd ?s)" "is_digit (last ?s)"
    using dec_str_nonempty [of n] dec_str_digits [of _ n] by simp_all
  then have st: "strip ?s = ?s" by (intro strip_keeps) (simp_all add: is_digit_plain)
  have rc: "remove_commas ?s = ?s" using dec_str_digits by (intro remove_commas_digits) simp
  from e have p: "percent_rule ?s = None" by (simp add: percent_rule_def is_digit_final)
  from e have s: "suffix_loop multipliers ?s = None"
    by (intro suffix_loop_other) (simp_all add: is_digit_final)
  from e(1) p s show ?thesis
    by (simp add: normalize_value_def st rc Let_def parse_number_decimal)
qed

lemma strip_Nil: "strip [] = []"
  by (simp add: strip_def)

lemma strip_blank:
  assumes "\<forall>c\<in>set s. py_isspace c" shows "strip s = []"
proof -
  from assms have d: "dropWhile py_isspace s = []" by (simp add: dropWhile_eq_Nil_conv)
  show ?thesis unfolding strip_def d by simp
qed

lemma strip_nonempty: "strip s \<noteq> [] \<Longrightarrow> s \<noteq> []"
  using strip_Nil by auto

lemma normalize_value_blank: "\<forall>c\<in>set s. py_isspace c \<Longrightarrow> normalize_value rt s = Inr PyNone"
  by (simp add: normalize_value_def strip_blank)

lemma foreign_chars:
  "c \<in> {CHR ''%'', CHR ''K'', CHR ''M'', CHR ''G'', CHR ''T''} \<Longrightarrow> \<not> num_space c \<and> \<not> final_ok c"
  by (auto simp: num_space_def final_ok_def literal_char_def is_digit_def is_exp_char_def
      to_lower_def Let_def char_of_eq_iff)

lemma remove_commas_snoc:
  "c \<noteq> CHR '','' \<Longrightarrow> remove_commas (p @ [c]) = remove_commas p @ [c]"
  by (simp add: remove_commas_def)

lemma remove_commas_last:
  assumes "remove_commas v = q @ [c]" "v \<noteq> []" "last v \<noteq> CHR '',''"
  shows "last v = c"
proof -
  from assms(2) have "v = butlast v @ [last v]" by simp
  then have "remove_commas v = remove_commas (butlast v) @ [last v]"
    using assms(3) remove_commas_snoc by metis
  with assms(1) show ?thesis by simp
qed

lemma normalize_value_percent:
  assumes "strip s = p @ ''%''" and "py_float_of_str (remove_commas p) = Inr f"
  shows "normalize_value rt s = Inr (PyFloat f)"
proof -
  let ?v = "strip s"
  from assms(1) have v: "?v \<noteq> []" by simp
  then have ne: "?v \<noteq> []" "s \<noteq> []" by (simp_all add: strip_nonempty)
  have vc: "remove_commas ?v = remove_commas p @ ''%''"
    unfolding assms(1) by (rule remove_commas_snoc) simp
  have "parse_number rt (remove_commas ?v) = Inl ValueError"
    unfolding vc by (rule parse_number_bad_last) (simp_all add: foreign_chars)
  moreover have "percent_rule ?v = Some (Inr (PyFloat f))"
    unfolding assms(1) by (simp add: percent_rule_def assms(2))
  ultimately show ?thesis using ne by (simp add: normalize_value_def Let_def)
qed

lemma suffix_loop_multipliers:
  assumes "(c, k) \<in> set multipliers" and "py_float_of_str q = Inr g"
  shows "suffix_loop multipliers (q @ [c]) = Some (Inr (PyFloat (fmul g (Fin (of_int k)))))"
  using assms by (auto simp: multipliers_def)

lemma normalize_value_suffix:
  assumes "(c, k) \<in> set multipliers" and "remove_commas (strip s) = q @ [c]"
    and "py_float_of_str q = Inr g"
  shows "normalize_value rt s = Inr (PyFloat (fmul g (Fin (of_int k))))"
proof -
  let ?v = "strip s"
  from assms(1) have c: "c \<in> {CHR ''%'', CHR ''K'', CHR ''M'', CHR ''G'', CHR ''T''}" "c \<noteq> CHR ''%''"
    by (auto simp: multipliers_def)
  have "remove_commas ?v \<noteq> []" unfolding assms(2) by simp
  then have v: "?v \<noteq> []" by (auto simp: remove_commas_def)
  then have ne: "?v \<noteq> []" "s \<noteq> []" by (simp_all add: strip_nonempty)
  have "parse_number rt (remove_commas ?v) = Inl ValueError"
    unfolding assms(2) by (rule parse_number_bad_last) (simp_all add: foreign_chars [OF c(1)])
  moreover have "percent_rule ?v = None"
  proof -
    have "last ?v \<noteq> CHR ''%''"
    proof
      assume l: "last ?v = CHR ''%''"
      then have "last ?v \<noteq> CHR '',''" by simp
      from remove_commas_last [OF assms(2) ne(1) this] l c(2) show False by simp
    qed
    then show ?thesis by (simp add: percent_rule_def)
  qed
  moreover note suffix_loop_multipliers [OF assms(1,3)]
  ultimately show ?thesis using ne by (simp add: normalize_value_def Let_def assms(2))
qed

lemma normalize_value_text:
  assumes "strip s \<noteq> []" and "isl (parse_number rt (remove_commas (strip s)))"
    and "percent_rule (strip s) = None"
    and "suffix_loop multipliers (remove_commas (strip s)) = None"
  shows "normalize_value rt s = Inr (PyStr (strip s))"
proof -
  from assms(2) obtain e where "parse_number rt (remove_commas (strip s)) = Inl e"
    by (auto simp: isl_def)
  moreover from this have "e = ValueError" by (rule parse_number_error)
  moreover from assms(1) have "s \<noteq> []" by (rule strip_nonempty)
  ultimately show ?thesis using assms by (simp add: normalize_value_def Let_def)
qed

lemma percent_rule_returns: "percent_rule v = Some r \<Longrightarrow> \<exists>f. r = Inr (PyFloat f)"
  unfolding percent_rule_def
  by (auto split: if_splits sum.splits dest: py_float_of_str_error)

lemma suffix_loop_returns: "suffix_loop ms vc = Some r \<Longrightarrow> \<exists>f. r = Inr (PyFloat f)"
  by (induction ms vc rule: suffix_loop.induct)
     (auto split: if_splits sum.splits dest: py_float_of_str_error)

lemma parse_number_returns: "parse_number rt vc = Inr x \<Longrightarrow> (\<exists>f. x = PyFloat f) \<or> (\<exists>i. x = PyInt i)"
  unfolding parse_number_def by (auto split: if_splits sum.splits)

lemma normalize_value_kinds:
  "(normalize_value rt s = Inr PyNone \<and> strip s = [])
   \<or> (strip s \<noteq> []
       \<and> ((\<exists>i. normalize_value rt s = Inr (PyInt i)) \<or> (\<exists>f. normalize_value rt s = Inr (PyFloat f))
          \<or> normalize_value rt s = Inr (PyStr (strip s))))"
proof (cases "s = [] \<or> strip s = []")
  case True
  then show ?thesis by (auto simp: normalize_value_def strip_Nil)
next
  case False
  show ?thesis
  proof (cases "parse_number rt (remove_commas (strip s))")
    case (Inr x)
    with False parse_number_returns [OF Inr] show ?thesis
      by (auto simp: normalize_value_def Let_def)
  next
    case (Inl e)
    then have e: "e = ValueError" by (rule parse_number_error)
    show ?thesis
    proof (cases "percent_rule (strip s)")
      case (Some r)
      with percent_rule_returns [OF Some] False Inl e show ?thesis
        by (auto simp: normalize_value_def Let_def)
    next
      case None
      show ?thesis
      proof (cases "suffix_loop multipliers (remove_commas (strip s))")
        case (Some r)
        with suffix_loop_returns [OF Some] False Inl e None show ?thesis
          by (auto simp: normalize_value_def Let_def)
      next
        case None2: None
        with False Inl e None show ?thesis
          by (auto simp: normalize_value_def Let_def)
      qed
    qed
  qed
qed

lemma strip_blank_iff: "strip s = [] \<longleftrightarrow> (\<forall>c\<in>set s. py_isspace c)"
proof
  assume "\<forall>c\<in>set s. py_isspace c"
  then show "strip s = []" by (rule strip_blank)
next
  assume "strip s = []"
  then have "dropWhile py_isspace (rev (dropWhile py_isspace s)) = []" by (simp add: strip_def)
  then have a: "\<forall>c\<in>set (dropWhile py_isspace s). py_isspace c"
    by (simp add: dropWhile_eq_Nil_conv)
  have "dropWhile py_isspace s = []"
  proof (rule ccontr)
    assume ne: "dropWhile py_isspace s \<noteq> []"
    from hd_dropWhile [OF ne] a ne show False by (metis hd_in_set)
  qed
  then show "\<forall>c\<in>set s. py_isspace c" by (simp add: dropWhile_eq_Nil_conv)
qed

lemma normalize_value_none_iff:
  "normalize_value rt s = Inr PyNone \<longleftrightarrow> (\<forall>c\<in>set s. py_isspace c)"
  using normalize_value_kinds [of rt s] strip_blank_iff [of s] by auto

text \<open>
  C3. Value normalisation never raises. It returns \<open>None\<close> exactly for an empty or
  all-whitespace string; for the decimal text of a natural number \<open>n\<close> with thousands
  separators the integer \<open>n\<close> when the text has no more digits than the limit of the
  interpreter, and the text itself when it has more; the float in front of a final percent
  sign; the float in front of a final \<open>K\<close>, \<open>M\<close>, \<open>G\<close> or \<open>T\<close> times the power of 1024
  of that suffix (1 to 4); and, when none of the numeric readings succeeds, the trimmed
  string itself. A string result is always the trimmed input.
\<close>

theorem normalize_value_rules:
  "(\<exists>v. normalize_value rt s = Inr v)
   \<and> (normalize_value rt s = Inr PyNone \<longleftrightarrow> (\<forall>c\<in>set s. py_isspace c))
   \<and> (\<not> digits_exceed rt (length (dec_str n)) \<longrightarrow>
        normalize_value rt (thousands n) = Inr (PyInt (int n)))
   \<and> (digits_exceed rt (length (dec_str n)) \<longrightarrow>
        normalize_value rt (thousands n) = Inr (PyStr (thousands n)))
   \<and> (strip s = p @ ''%'' \<and> py_float_of_str (remove_commas p) = Inr f \<longrightarrow>
        normalize_value rt s = Inr (PyFloat f))
   \<and> ((c, k) \<in> set multipliers \<and> remove_commas (strip s) = q @ [c] \<and> py_float_of_str q = Inr g \<longrightarrow>
        normalize_value rt s = Inr (PyFloat (fmul g (Fin (of_int k)))))
   \<and> (strip s \<noteq> [] \<and> isl (parse_number rt (remove_commas (strip s)))
        \<and> percent_rule (strip s) = None
        \<and> suffix_loop multipliers (remove_commas (strip s)) = None \<longrightarrow>
        normalize_value rt s = Inr (PyStr (strip s)))
   \<and> (\<forall>t. normalize_value rt s = Inr (PyStr t) \<longrightarrow> t = strip s)"
proof -
  have 1: "\<exists>v. normalize_value rt s = Inr v" using normalize_value_kinds [of rt s] by blast
  have 2: "normalize_value rt s = Inr PyNone \<longleftrightarrow> (\<forall>c\<in>set s. py_isspace c)"
    by (rule normalize_value_none_iff)
  have 3: "\<not> digits_exceed rt (length (dec_str n)) \<longrightarrow>
        normalize_value rt (thousands n) = Inr (PyInt (int n))"
    by (simp add: normalize_value_thousands)
  have 4: "digits_exceed rt (length (dec_str n)) \<longrightarrow>
        normalize_value rt (thousands n) = Inr (PyStr (thousands n))"
    by (simp add: normalize_value_thousands)
  have 5: "strip s = p @ ''%'' \<and> py_float_of_str (remove_commas p) = Inr f \<longrightarrow>
        normalize_value rt s = Inr (PyFloat f)"
    using normalize_value_percent [of s p f rt] by blast
  have 6: "(c, k) \<in> set multipliers \<and> remove_commas (strip s) = q @ [c]
        \<and> py_float_of_str q = Inr g \<longrightarrow>
        normalize_value rt s = Inr (PyFloat (fmul g (Fin (of_int k))))"
    using normalize_value_suffix [of c k s q g rt] by blast
  have 7: "strip s \<noteq> [] \<and> isl (parse_number rt (remove_commas (strip s)))
        \<and> percent_rule (strip s) = None
        \<and> suffix_loop multipliers (remove_commas (strip s)) = None \<longrightarrow>
        normalize_value rt s = Inr (PyStr (strip s))"
    using normalize_value_text [of s rt] by blast
  have 8: "\<forall>t. normalize_value rt s = Inr (PyStr t) \<longrightarrow> t = strip s"
    using normalize_value_kinds [of rt s] by auto
  from 1 2 3 4 5 6 7 8 show ?thesis by (intro conjI)
qed

lemma thousands_example: "thousands 1234567 = ''1,234,567''"
  by (simp add: thousands_def dec_str.simps digit_char_def char_of_eq_iff)

lemma example_limit:
  "digits_exceed example_runtime d \<longleftrightarrow> 4300 < d"
  by (simp add: digits_exceed_def example_runtime_def)

lemma float_of_str_examples:
  "py_float_of_str ''12.5'' = Inr (Fin 12.5)"
  "py_float_of_str ''0.1'' = Inr (Fin (3602879701896397 / 36028797018963968))"
  "py_float_of_str ''2'' = Inr (Fin 2)"
  "py_float_of_str ''1'' = Inr (Fin 1)"
  "py_float_of_str ''1.5'' = Inr (Fin 1.5)"
  "py_float_of_str [CHR ''5'', CHR 0x1C] = Inl ValueError"
  "py_float_of_str [CHR ''5'', CHR 0xA0] = Inr (Fin 5)"
  by (simp_all add: literal_defs round_defs)

theorem normalize_value_rules_witness:
  "normalize_value example_runtime ''1,234,567'' = Inr (PyInt 1234567)
   \<and> normalize_value example_runtime ''12.5%'' = Inr (PyFloat (Fin 12.5))
   \<and> normalize_value example_runtime ''0.1%''
       = Inr (PyFloat (Fin (3602879701896397 / 36028797018963968)))
   \<and> normalize_value example_runtime ''1K'' = Inr (PyFloat (Fin 1024))
   \<and> normalize_value example_runtime ''2M'' = Inr (PyFloat (Fin (2 * 1048576)))
   \<and> normalize_value example_runtime ''1.5G'' = Inr (PyFloat (Fin 1610612736))
   \<and> normalize_value example_runtime ''1T'' = Inr (PyFloat (Fin 1099511627776))
   \<and> normalize_value example_runtime [] = Inr PyNone
   \<and> normalize_value example_runtime [CHR 0x09, CHR 0x1C, CHR '' '', CHR 0x85, CHR 0xA0]
       = Inr PyNone
   \<and> normalize_value example_runtime '' N/A '' = Inr (PyStr ''N/A'')
   \<and> normalize_value example_runtime [CHR ''5'', CHR 0x1C, CHR ''%'']
       = Inr (PyStr [CHR ''5'', CHR 0x1C, CHR ''%''])
   \<and> normalize_value example_runtime [CHR ''5'', CHR 0xA0, CHR ''%''] = Inr (PyFloat (Fin 5))"
proof -
  note R = normalize_value_rules [where rt = example_runtime]
  note blank = R [THEN conjunct2, THEN conjunct1, THEN iffD2]
  note comma = R [THEN conjunct2, THEN conjunct2, THEN conjunct1, rule_format]
  note percent = R [THEN conjunct2, THEN conjunct2, THEN conjunct2, THEN conjunct2,
      THEN conjunct1, rule_format]
  note suffix = R [THEN conjunct2, THEN conjunct2, THEN conjunct2, THEN conjunct2,
      THEN conjunct2, THEN conjunct1, rule_format]
  note plain = R [THEN conjunct2, THEN conjunct2, THEN conjunct2, THEN conjunct2,
      THEN conjunct2, THEN conjunct2, THEN conjunct1, rule_format]
  have "normalize_value example_runtime (thousands 1234567) = Inr (PyInt (int 1234567))"
    by (rule comma) (simp add: example_limit dec_str.simps)
  then have a: "normalize_value example_runtime ''1,234,567'' = Inr (PyInt 1234567)"
    unfolding thousands_example by simp
  have b: "normalize_value example_runtime ''12.5%'' = Inr (PyFloat (Fin 12.5))"
    by (rule percent [where p = "''12.5''"])
       (simp add: strip_def py_isspace_def remove_commas_def float_of_str_examples)
  have b': "normalize_value example_runtime ''0.1%''
       = Inr (PyFloat (Fin (3602879701896397 / 36028797018963968)))"
    by (rule percent [where p = "''0.1''"])
       (simp add: strip_def py_isspace_def remove_commas_def float_of_str_examples)
  have "normalize_value example_runtime ''1K'' = Inr (PyFloat (fmul (Fin 1) (Fin (of_int 1024))))"
    by (rule suffix [where q = "''1''"])
       (simp add: strip_def py_isspace_def remove_commas_def float_of_str_examples
          multipliers_def)
  then have c1: "normalize_value example_runtime ''1K'' = Inr (PyFloat (Fin 1024))"
    by (simp add: round_defs)
  have "normalize_value example_runtime ''2M''
        = Inr (PyFloat (fmul (Fin 2) (Fin (of_int (1024 ^ 2)))))"
    by (rule suffix [where q = "''2''"])
       (simp add: strip_def py_isspace_def remove_commas_def float_of_str_examples
          multipliers_def)
  then have c2: "normalize_value example_runtime ''2M'' = Inr (PyFloat (Fin (2 * 1048576)))"
    by (simp add: round_defs)
  have "normalize_value example_runtime ''1.5G''
        = Inr (PyFloat (fmul (Fin 1.5) (Fin (of_int (1024 ^ 3)))))"
    by (rule suffix [where q = "''1.5''"])
       (simp add: strip_def py_isspace_def remove_commas_def float_of_str_examples
          multipliers_def)
  then have c3: "normalize_value example_runtime ''1.5G'' = Inr (PyFloat (Fin 1610612736))"
    by (simp add: round_defs)
  have "normalize_value example_runtime ''1T''
        = Inr (PyFloat (fmul (Fin 1) (Fin (of_int (1024 ^ 4)))))"
    by (rule suffix [where q = "''1''"])
       (simp add: strip_def py_isspace_def remove_commas_def float_of_str_examples
          multipliers_def)
  then have c4: "normalize_value example_runtime ''1T'' = Inr (PyFloat (Fin 1099511627776))"
    by (simp add: round_defs)
  have d: "normalize_value example_runtime [] = Inr PyNone" by (rule blank) simp
  have e: "normalize_value example_runtime [CHR 0x09, CHR 0x1C, CHR '' '', CHR 0x85, CHR 0xA0]
       = Inr PyNone"
    by (rule blank) (simp add: py_isspace_def)
  have g1: "strip '' N/A '' = ''N/A''" by (simp add: literal_defs)
  have "normalize_value example_runtime '' N/A '' = Inr (PyStr (strip '' N/A ''))"
    by (rule plain)
       (simp add: g1 parse_number_def remove_commas_def literal_defs percent_rule_def
          multipliers_def)
  then have g: "normalize_value example_runtime '' N/A '' = Inr (PyStr ''N/A'')"
    by (simp only: g1)
  have h1: "strip [CHR ''5'', CHR 0x1C, CHR ''%''] = [CHR ''5'', CHR 0x1C, CHR ''%'']"
    by (simp add: strip_def py_isspace_def)
  have "normalize_value example_runtime [CHR ''5'', CHR 0x1C, CHR ''%'']
        = Inr (PyStr (strip [CHR ''5'', CHR 0x1C, CHR ''%'']))"
    by (rule plain)
       (simp add: h1 parse_number_def remove_commas_def percent_rule_def multipliers_def
          float_of_str_examples, simp add: literal_defs)
  then have h: "normalize_value example_runtime [CHR ''5'', CHR 0x1C, CHR ''%'']
       = Inr (PyStr [CHR ''5'', CHR 0x1C, CHR ''%''])"
    by (simp only: h1)
  have i: "normalize_value example_runtime [CHR ''5'', CHR 0xA0, CHR ''%''] = Inr (PyFloat (Fin 5))"
    by (rule percent [where p = "[CHR ''5'', CHR 0xA0]"])
       (simp add: strip_def py_isspace_def remove_commas_def float_of_str_examples)
  from a b b' c1 c2 c3 c4 d e g h i show ?thesis by (intro conjI)
qed

lemma dec_str_length_power10: "length (dec_str (10 ^ k)) = Suc k"
  by (simp add: dec_str_power10)

lemma example_limit_lengths:
  "length (dec_str example_over_limit) = 4301" "length (dec_str example_at_limit) = 4300"
  unfolding example_over_limit_def example_at_limit_def dec_str_length_power10 by simp_all

text \<open>
  Under the default limit of 4300 digits the text of \<open>10^4300\<close> with thousands separators,
  which has 4301 digits, is not normalised to the integer: \<open>int\<close> raises \<open>ValueError\<close>,
  which is caught, and the text itself is returned. The text of \<open>10^4299\<close> is normalised
  to the integer.
\<close>

theorem normalize_value_digit_limit_counterexample:
  "int_max_str_digits example_runtime = 4300
   \<and> length (dec_str example_over_limit) = 4301
   \<and> normalize_value example_runtime (thousands example_over_limit)
       = Inr (PyStr (thousands example_over_limit))
   \<and> normalize_value example_runtime (thousands example_over_limit)
       \<noteq> Inr (PyInt (int example_over_limit))
   \<and> normalize_value example_runtime (thousands example_at_limit)
       = Inr (PyInt (int example_at_limit))"
proof -
  have 1: "int_max_str_digits example_runtime = 4300" by (simp add: example_runtime_def)
  have 3: "normalize_value example_runtime (thousands example_over_limit)
           = Inr (PyStr (thousands example_over_limit))"
    by (simp add: normalize_value_thousands example_limit_lengths example_limit)
  have 4: "normalize_value example_runtime (thousands example_at_limit)
           = Inr (PyInt (int example_at_limit))"
    by (simp add: normalize_value_thousands example_limit_lengths example_limit)
  from 3 have 5: "normalize_value example_runtime (thousands example_over_limit)
       \<noteq> Inr (PyInt (int example_over_limit))"
    by simp
  from 1 example_limit_lengths(1) 3 5 4 show ?thesis by (intro conjI)
qed

section \<open>A conversion error that is not caught\<close>

lemma example_huge_text_decimal: "example_huge_text = dec_str (10 ^ 309)"
  unfolding example_huge_text_def dec_str_power10 ..

lemma example_huge_overflow: "py_float (PyInt example_huge) = Inl OverflowError"
  by (simp add: py_float_int float_limit_def example_huge_def)

lemma example_text_caught:
  "py_float_of_str ''N/A'' = Inl ValueError" "py_float PyNone = Inl TypeError"
  "py_float (PyInt 5) = Inr (Fin 5)"
  by (simp_all add: literal_defs py_float.simps(2) round_defs)

lemma example_huge_raises: "compare_values m (PyInt example_huge) tv th = Inl OverflowError"
  using example_huge_overflow by (intro compare_values_raises) (simp_all add: caught_def)

text \<open>
  C1. A value that fails the conversion to a float with \<open>OverflowError\<close> gives no outcome:
  the cell text of 310 digits "1000...0" is normalised to the integer \<open>10^309\<close>, the
  conversion of that integer to a float raises \<open>OverflowError\<close>, and value diffing with it
  as baseline or as target raises that error instead of returning an outcome without
  changes, as does the same-engine comparison of a table holding it. The failures of the
  conversion of a text and of \<open>None\<close> are caught and give the outcome without changes.
  For all values, \<open>compare_values_caught\<close>, \<open>compare_values_formulas\<close> and
  \<open>compare_values_error\<close> above give the outcome of a caught failure, the changes of two
  finite numbers, and the one error that leaves the function.
\<close>

theorem compare_values_overflow_raises:
  "normalize_value example_runtime example_huge_text = Inr (PyInt example_huge)
   \<and> py_float (PyInt example_huge) = Inl OverflowError
   \<and> compare_values ''Per Second'' (PyInt example_huge) (PyInt 5) example_thresholds
       = Inl OverflowError
   \<and> compare_values ''Per Second'' (PyInt 5) (PyInt example_huge) example_thresholds
       = Inl OverflowError
   \<and> compare_same_platform example_runtime example_config example_huge_base example_target
        example_thresholds = Inl OverflowError
   \<and> (\<exists>r. compare_values ''Per Second'' (PyStr ''N/A'') (PyInt 5) example_thresholds
          = Inr r
          \<and> absolute_change r = None \<and> percent_change r = None
          \<and> \<not> is_warning r \<and> \<not> is_critical r)
   \<and> (\<exists>r. compare_values ''Per Second'' (PyInt 5) PyNone example_thresholds = Inr r
          \<and> absolute_change r = None \<and> percent_change r = None
          \<and> \<not> is_warning r \<and> \<not> is_critical r)"
proof -
  have "normalize_value example_runtime (dec_str (10 ^ 309)) = Inr (PyInt (int (10 ^ 309)))"
    unfolding normalize_value_decimal dec_str_length_power10 by (simp add: example_limit)
  then have 1: "normalize_value example_runtime example_huge_text = Inr (PyInt example_huge)"
    by (simp add: example_huge_text_decimal example_huge_def)
  have nc: "\<not> caught OverflowError" by (simp add: caught_def)
  have 3: "compare_values ''Per Second'' (PyInt example_huge) (PyInt 5) example_thresholds
       = Inl OverflowError"
    by (rule example_huge_raises)
  have 4: "compare_values ''Per Second'' (PyInt 5) (PyInt example_huge) example_thresholds
       = Inl OverflowError"
    using example_huge_overflow example_text_caught(3) nc
    by (intro compare_values_raises [where b = "Fin 5"]) simp_all
  have 5: "compare_same_platform example_runtime example_config example_huge_base example_target
        example_thresholds = Inl OverflowError"
    by (simp add: compare_same_platform_def target_index_def same_row_def get_row_key_def
        example_huge_base_def example_target_def dict_has_def dict_get_def
        is_numeric_column_def text_columns_def example_config_def example_huge_raises)
  have "compare_values ''Per Second'' (PyStr ''N/A'') (PyInt 5) example_thresholds
        = Inr (unquantifiable ''Per Second'' (PyStr ''N/A'') (PyInt 5))"
    by (rule compare_values_caught [where e = ValueError])
       (simp_all add: example_text_caught caught_def)
  then have 6: "\<exists>r. compare_values ''Per Second'' (PyStr ''N/A'') (PyInt 5) example_thresholds
          = Inr r
          \<and> absolute_change r = None \<and> percent_change r = None
          \<and> \<not> is_warning r \<and> \<not> is_critical r"
    by (simp add: unquantifiable_def)
  have "compare_values ''Per Second'' (PyInt 5) PyNone example_thresholds
        = Inr (unquantifiable ''Per Second'' (PyInt 5) PyNone)"
    by (rule compare_values_caught [where e = TypeError and b = "Fin 5"])
       (simp_all add: example_text_caught caught_def)
  then have 7: "\<exists>r. compare_values ''Per Second'' (PyInt 5) PyNone example_thresholds = Inr r
          \<and> absolute_change r = None \<and> percent_change r = None
          \<and> \<not> is_warning r \<and> \<not> is_critical r"
    by (simp add: unquantifiable_def)
  from 1 example_huge_overflow 3 4 5 6 7 show ?thesis by (intro conjI)
qed

section \<open>Properties of markup tables\<close>

lemma normalize_value_total: "\<exists>v. normalize_value rt s = Inr v"
  using normalize_value_kinds [of rt s] by blast

lemma dict_set_keys: "fst ` set (dict_set d k v) = insert k (fst ` set d)"
  by (induction d k v rule: dict_set.induct) auto

lemma fill_row_keys:
  "i + length cells \<le> length hs \<Longrightarrow>
   \<exists>r. fill_row rt rd hs i cells = Inr r
       \<and> fst ` set r = fst ` set rd \<union> set (take (length cells) (drop i hs))"
proof (induction cells arbitrary: rd i)
  case Nil
  then show ?case by simp
next
  case (Cons cell cells)
  then have i: "i < length hs" and le: "Suc i + length cells \<le> length hs" by simp_all
  obtain v where v: "normalize_value rt (strip (snd cell)) = Inr v"
    using normalize_value_total by blast
  from Cons.IH [OF le, of "dict_set rd (hs ! i) v"]
  obtain r where r: "fill_row rt (dict_set rd (hs ! i) v) hs (Suc i) cells = Inr r"
    and k: "fst ` set r = fst ` set (dict_set rd (hs ! i) v) \<union> set (take (length cells) (drop (Suc i) hs))"
    by blast
  have "drop i hs = hs ! i # drop (Suc i) hs" using i by (simp add: Cons_nth_drop_Suc)
  then have "set (take (length (cell # cells)) (drop i hs))
             = insert (hs ! i) (set (take (length cells) (drop (Suc i) hs)))"
    by simp
  with k have "fst ` set r = fst ` set rd \<union> set (take (length (cell # cells)) (drop i hs))"
    by (simp add: dict_set_keys)
  with r v i show ?case by simp
qed

lemma fill_row_data:
  assumes "well_formed_row hs tr"
  shows "\<exists>r. fill_row rt [] hs 0 (find_all_td tr) = Inr r \<and> fst ` set r = set hs"
proof -
  from assms have l: "length (find_all_td tr) = length hs" by (simp add: well_formed_row_def)
  then have "0 + length (find_all_td tr) \<le> length hs" by simp
  from fill_row_keys [OF this, of rt "[]"] l show ?thesis by simp
qed

lemma data_rows_spec:
  "\<exists>rs. data_rows rt hs trs = Inr rs
        \<and> list_all2 (\<lambda>tr r. fill_row rt [] hs 0 (find_all_td tr) = Inr r)
             (filter (well_formed_row hs) trs) rs
        \<and> (\<forall>r\<in>set rs. fst ` set r = set hs)"
proof (induction trs)
  case Nil
  then show ?case by simp
next
  case (Cons tr trs)
  then obtain rs where rs: "data_rows rt hs trs = Inr rs"
    and a: "list_all2 (\<lambda>tr r. fill_row rt [] hs 0 (find_all_td tr) = Inr r)
             (filter (well_formed_row hs) trs) rs"
    and k: "\<forall>r\<in>set rs. fst ` set r = set hs"
    by blast
  show ?case
  proof (cases "well_formed_row hs tr")
    case True
    from fill_row_data [OF True] obtain r where r: "fill_row rt [] hs 0 (find_all_td tr) = Inr r"
      and kr: "fst ` set r = set hs" by blast
    from True have "data_rows rt hs (tr # trs) = Inr (r # rs)"
      by (simp add: well_formed_row_def Let_def r rs)
    with True a k r kr show ?thesis by simp
  next
    case False
    then have "data_rows rt hs (tr # trs) = Inr rs"
      by (auto simp: well_formed_row_def Let_def rs)
    with False a k show ?thesis by simp
  qed
qed


lemma data_rows_length:
  "data_rows rt hs trs = Inr rs \<Longrightarrow> length rs = length (filter (well_formed_row hs) trs)"
  using data_rows_spec [of rt hs trs] by (auto dest: list_all2_lengthD)

text \<open>
  C7. Both parsers return a table for every markup table. Its column names are the texts of
  the cells of the header row, \<open>th\<close> or \<open>td\<close>. Its rows are, in order, the rows built from
  exactly those data rows whose number of \<open>td\<close> cells is not zero and equals the number
  of header cells; a data row with another number of \<open>td\<close> cells is not in the table.
  Every row of the table has exactly the column names of the table as its keys.
\<close>

theorem parse_html_table_rows:
  "\<exists>t. awr_parse_html_table rt table tname = Inr t \<and> pg_parse_html_table rt table tname = Inr t
      \<and> headers t = header_names table
      \<and> length (headers t) = (case table of [] \<Rightarrow> 0 | header_row # _ \<Rightarrow> length header_row)
      \<and> list_all2 (\<lambda>tr r. fill_row rt [] (header_names table) 0 (find_all_td tr) = Inr r)
           (filter (well_formed_row (header_names table)) (drop 1 table)) (rows t)
      \<and> length (rows t)
          = length (filter (\<lambda>tr. filter (\<lambda>c. fst c = Td) tr \<noteq> []
                                \<and> length (filter (\<lambda>c. fst c = Td) tr) = length (headers t))
                      (drop 1 table))
      \<and> (\<forall>r\<in>set (rows t). fst ` set r = set (headers t))"
proof -
  from data_rows_spec [of rt "header_names table" "drop 1 table"]
  obtain rs where d: "data_rows rt (header_names table) (drop 1 table) = Inr rs"
    and l: "list_all2 (\<lambda>tr r. fill_row rt [] (header_names table) 0 (find_all_td tr) = Inr r)
           (filter (well_formed_row (header_names table)) (drop 1 table)) rs"
    and k: "\<forall>r\<in>set rs. fst ` set r = set (header_names table)"
    by blast
  have n: "length (header_names table) = (case table of [] \<Rightarrow> 0 | header_row # _ \<Rightarrow> length header_row)"
    by (cases table) (simp_all add: header_names_def)
  have w: "well_formed_row (header_names table)
           = (\<lambda>tr. filter (\<lambda>c. fst c = Td) tr \<noteq> []
                  \<and> length (filter (\<lambda>c. fst c = Td) tr) = length (header_names table))"
    by (rule ext) (simp add: well_formed_row_def find_all_td_def)
  from data_rows_length [OF d]
  have c: "length rs
          = length (filter (\<lambda>tr. filter (\<lambda>c. fst c = Td) tr \<noteq> []
                                \<and> length (filter (\<lambda>c. fst c = Td) tr) = length (header_names table))
                      (drop 1 table))"
    unfolding w .
  from d l k n c show ?thesis
    by (simp add: awr_parse_html_table_def pg_parse_html_table_def parse_html_table_def Let_def)
qed

lemmas normalize_defs =
  normalize_value_def parse_number_def percent_rule_def multipliers_def remove_commas_def

lemma example_markup_rows:
  "filter (well_formed_row (header_names example_markup)) (drop 1 example_markup)
   = [[(Td, ''DB Time''), (Td, ''1,000'')]]"
  by (simp add: example_markup_def header_names_def well_formed_row_def find_all_td_def)

lemma example_markup_fill:
  "fill_row example_runtime [] (header_names example_markup) 0
     (find_all_td [(Td, ''DB Time''), (Td, ''1,000'')])
   = Inr [(''Metric'', PyStr ''DB Time''), (''Per Second'', PyInt 1000)]"
  by (simp add: example_markup_def header_names_def find_all_td_def normalize_defs literal_defs
      char_of_eq_iff example_runtime_def)

theorem parse_html_table_rows_witness:
  "\<exists>t. awr_parse_html_table example_runtime example_markup ''load_profile'' = Inr t
      \<and> pg_parse_html_table example_runtime example_markup ''load_profile'' = Inr t
      \<and> headers t = [''Metric'', ''Per Second'']
      \<and> rows t = [[(''Metric'', PyStr ''DB Time''), (''Per Second'', PyInt 1000)]]
      \<and> length (drop 1 example_markup) = 4"
proof -
  from parse_html_table_rows [of example_runtime example_markup "''load_profile''"]
  obtain t where t: "awr_parse_html_table example_runtime example_markup ''load_profile'' = Inr t"
      "pg_parse_html_table example_runtime example_markup ''load_profile'' = Inr t"
      "headers t = header_names example_markup"
    and l: "list_all2 (\<lambda>tr r. fill_row example_runtime [] (header_names example_markup) 0
                                  (find_all_td tr) = Inr r)
           (filter (well_formed_row (header_names example_markup)) (drop 1 example_markup)) (rows t)"
    by blast
  from l have "rows t = [[(''Metric'', PyStr ''DB Time''), (''Per Second'', PyInt 1000)]]"
    unfolding example_markup_rows by (auto simp: list_all2_Cons1 example_markup_fill)
  moreover have "header_names example_markup = [''Metric'', ''Per Second'']"
    by (simp add: example_markup_def header_names_def literal_defs)
  moreover have "length (drop 1 example_markup) = 4" by (simp add: example_markup_def)
  ultimately show ?thesis using t by simp
qed

text \<open>
  The cells counted in a data row are its \<open>td\<close> cells only: under a header row of two
  cells, the data row of three cells \<open>th\<close>, \<open>td\<close>, \<open>td\<close> is in the table, its two \<open>td\<close>
  cells read as the two columns.
\<close>

theorem parse_html_table_th_cell_counterexample:
  "parse_html_table example_runtime example_markup_th ''load_profile''
     = Inr \<lparr>name = ''load_profile'', headers = [''Metric'', ''Per Second''],
            rows = [[(''Metric'', PyStr ''DB Time''), (''Per Second'', PyInt 250)]],
            tmetadata = []\<rparr>
   \<and> awr_parse_html_table example_runtime example_markup_th ''load_profile''
       = parse_html_table example_runtime example_markup_th ''load_profile''
   \<and> pg_parse_html_table example_runtime example_markup_th ''load_profile''
       = parse_html_table example_runtime example_markup_th ''load_profile''
   \<and> example_markup_th ! 1 = [(Th, ''1''), (Td, ''DB Time''), (Td, ''250'')]
   \<and> length (example_markup_th ! 1) = 3
   \<and> length (hd example_markup_th) = 2
   \<and> \<not> cell_count_matches example_markup_th (example_markup_th ! 1)"
  by (simp add: parse_html_table_def awr_parse_html_table_def pg_parse_html_table_def
      example_markup_th_def header_names_def find_all_td_def cell_count_matches_def
      normalize_defs literal_defs char_of_eq_iff example_runtime_def Let_def)

section \<open>Properties of same-engine comparison\<close>

lemma compare_row_spec:
  "compare_row cfg th br tr hs = Inr outs \<Longrightarrow> row_outcomes cfg th hs br tr outs"
proof (induction hs arbitrary: outs)
  case Nil
  then show ?case by (simp add: row_outcomes_def)
next
  case (Cons h hs)
  show ?case
  proof (cases "comparable_column cfg br tr h")
    case True
    with Cons.prems obtain c rest
      where c: "compare_values h (dict_get br h) (dict_get tr h) th = Inr c"
      and r: "compare_row cfg th br tr hs = Inr rest" and o: "outs = c # rest"
      by (auto simp: comparable_column_def split: sum.splits)
    from Cons.IH [OF r] True c o show ?thesis by (simp add: row_outcomes_def)
  next
    case False
    with Cons.prems have "compare_row cfg th br tr hs = Inr outs"
      by (auto simp: comparable_column_def)
    from Cons.IH [OF this] False show ?thesis by (simp add: row_outcomes_def)
  qed
qed

lemma compare_row_returns:
  "(\<exists>outs. compare_row cfg th br tr hs = Inr outs)
   \<longleftrightarrow> (\<forall>h\<in>set (filter (comparable_column cfg br tr) hs).
          \<not> isl (compare_values h (dict_get br h) (dict_get tr h) th))"
proof (induction hs)
  case Nil
  then show ?case by simp
next
  case (Cons h hs)
  show ?case
  proof (cases "comparable_column cfg br tr h")
    case True
    then have "(\<exists>outs. compare_row cfg th br tr (h # hs) = Inr outs)
               \<longleftrightarrow> \<not> isl (compare_values h (dict_get br h) (dict_get tr h) th)
                   \<and> (\<exists>outs. compare_row cfg th br tr hs = Inr outs)"
      by (auto simp: comparable_column_def split: sum.splits)
    with Cons True show ?thesis by simp
  next
    case False
    then have "compare_row cfg th br tr (h # hs) = compare_row cfg th br tr hs"
      by (auto simp: comparable_column_def)
    with Cons False show ?thesis by simp
  qed
qed

lemma row_outcomes_empty_row: "row_outcomes cfg th hs br [] outs \<longleftrightarrow> outs = []"
  by (simp add: row_outcomes_def comparable_column_def dict_has_def)

lemma last_with_key_snoc:
  "last_with_key rt (trs @ [r]) k =
     (if get_row_key rt r = Inr k then Some r else last_with_key rt trs k)"
  by (simp add: last_with_key_def)

lemma last_with_key_Cons:
  "last_with_key rt (r # trs) k =
     (case last_with_key rt trs k of
        Some x \<Rightarrow> Some x
      | None \<Rightarrow> if get_row_key rt r = Inr k then Some r else None)"
  by (simp add: last_with_key_def Let_def)

lemma index_rows_spec:
  "index_rows rt m rs = Inr idx \<Longrightarrow>
   idx k = (case last_with_key rt rs k of None \<Rightarrow> m k | Some r \<Rightarrow> Some r)"
proof (induction rs arbitrary: m)
  case Nil
  then show ?case by (simp add: last_with_key_def)
next
  case (Cons r rs)
  from Cons.prems obtain k' where k': "get_row_key rt r = Inr k'"
    and i: "index_rows rt (m(k' \<mapsto> r)) rs = Inr idx"
    by (auto split: sum.splits)
  from Cons.IH [OF i] k' show ?case
    by (auto simp: last_with_key_Cons split: option.splits)
qed

lemma index_rows_returns:
  "(\<exists>idx. index_rows rt m rs = Inr idx) \<longleftrightarrow> (\<forall>r\<in>set rs. \<not> isl (get_row_key rt r))"
proof (induction rs arbitrary: m)
  case Nil
  then show ?case by simp
next
  case (Cons r rs)
  show ?case
  proof (cases "get_row_key rt r")
    case (Inl e)
    then show ?thesis by simp
  next
    case (Inr k)
    have "(\<exists>idx. index_rows rt m (r # rs) = Inr idx)
          \<longleftrightarrow> (\<exists>idx. index_rows rt (m(k \<mapsto> r)) rs = Inr idx)"
      by (simp add: Inr)
    also have "\<dots> \<longleftrightarrow> (\<forall>r\<in>set rs. \<not> isl (get_row_key rt r))" by (rule Cons)
    finally show ?thesis by (simp add: Inr)
  qed
qed

lemma target_index_last:
  "target_index rt trs = Inr idx \<Longrightarrow> idx k = last_with_key rt trs k"
  unfolding target_index_def by (drule index_rows_spec [where k = k]) (simp split: option.splits)

lemma last_with_key_Some:
  "last_with_key rt trs k = Some r \<Longrightarrow> r \<in> set trs \<and> get_row_key rt r = Inr k"
proof -
  assume a: "last_with_key rt trs k = Some r"
  let ?ms = "filter (\<lambda>r. get_row_key rt r = Inr k) trs"
  from a have ne: "?ms \<noteq> []" and l: "last ?ms = r"
    by (auto simp: last_with_key_def Let_def split: if_splits)
  from ne have "last ?ms \<in> set ?ms" by (rule last_in_set)
  with l show ?thesis by simp
qed


lemma last_with_key_split:
  assumes "trs = xs @ r # ys" "get_row_key rt r = Inr k" "\<forall>y\<in>set ys. get_row_key rt y \<noteq> Inr k"
  shows "last_with_key rt trs k = Some r"
proof -
  from assms(3) have "filter (\<lambda>r. get_row_key rt r = Inr k) ys = []"
    by (simp add: filter_empty_conv)
  with assms(1,2) show ?thesis by (simp add: last_with_key_def)
qed

lemma same_row_spec:
  assumes "target_index rt trs = Inr idx" and "same_row rt cfg th hs idx br = Inr outs"
  shows "matched_outcomes rt cfg th hs trs br outs"
proof -
  from assms(2) obtain k where k: "get_row_key rt br = Inr k"
    by (auto simp: same_row_def split: sum.splits)
  note i = target_index_last [OF assms(1), of k]
  show ?thesis
  proof (cases "last_with_key rt trs k")
    case None
    with assms(2) k i show ?thesis by (simp add: same_row_def matched_outcomes_def)
  next
    case (Some tr)
    show ?thesis
    proof (cases "tr = []")
      case True
      with assms(2) k i Some show ?thesis
        by (simp add: same_row_def matched_outcomes_def row_outcomes_empty_row)
    next
      case False
      with assms(2) k i Some have "compare_row cfg th br tr hs = Inr outs"
        by (simp add: same_row_def)
      from compare_row_spec [OF this] k Some show ?thesis by (simp add: matched_outcomes_def)
    qed
  qed
qed

lemma same_rows_loop_spec:
  assumes "target_index rt trs = Inr idx"
  shows "same_rows_loop rt cfg th hs idx brs = Inr outs \<Longrightarrow>
         \<exists>per_row. outs = concat per_row
            \<and> list_all2 (matched_outcomes rt cfg th hs trs) brs per_row"
proof (induction brs arbitrary: outs)
  case Nil
  then show ?case by simp
next
  case (Cons br brs)
  from Cons.prems obtain cs ds where c: "same_row rt cfg th hs idx br = Inr cs"
    and d: "same_rows_loop rt cfg th hs idx brs = Inr ds" and o: "outs = cs @ ds"
    by (auto split: sum.splits)
  from Cons.IH [OF d] obtain per_row where p: "ds = concat per_row"
    and a: "list_all2 (matched_outcomes rt cfg th hs trs) brs per_row" by blast
  from same_row_spec [OF assms c] have m: "matched_outcomes rt cfg th hs trs br cs" .
  have "outs = concat (cs # per_row)" using o p by simp
  moreover have "list_all2 (matched_outcomes rt cfg th hs trs) (br # brs) (cs # per_row)"
    using a m by simp
  ultimately show ?case by blast
qed

lemma compare_same_platform_rows:
  assumes "compare_same_platform rt cfg base target th = Inr outs"
  shows "\<exists>per_row. outs = concat per_row
            \<and> list_all2 (matched_outcomes rt cfg th (headers base) (rows target))
                 (rows base) per_row"
proof -
  from assms obtain idx where i: "target_index rt (rows target) = Inr idx"
    and l: "same_rows_loop rt cfg th (headers base) idx (rows base) = Inr outs"
    by (auto simp: compare_same_platform_def split: sum.splits)
  from same_rows_loop_spec [OF i l] show ?thesis .
qed


lemma compare_values_safe:
  assumes "safe_value rt bv" and "safe_value rt tv"
  shows "\<exists>r. compare_values m bv tv th = Inr r"
proof (cases "compare_values m bv tv th")
  case (Inr r)
  then show ?thesis by blast
next
  case (Inl e)
  from compare_values_error [OF Inl] obtain i
    where "bv = PyInt i \<or> tv = PyInt i" and "float_limit \<le> \<bar>i\<bar>" by blast
  with assms show ?thesis by (auto simp: safe_value_def)
qed

lemma dict_get_safe: "safe_row rt r \<Longrightarrow> safe_value rt (dict_get r h)"
proof (cases "map_of r h")
  case None
  then show ?thesis by (simp add: dict_get_def safe_value_def)
next
  case (Some v)
  assume s: "safe_row rt r"
  from Some have "(h, v) \<in> set r" by (rule map_of_SomeD)
  with s have "safe_value rt v" by (auto simp: safe_row_def)
  with Some show ?thesis by (simp add: dict_get_def)
qed

lemma compare_row_safe:
  assumes "safe_row rt br" and "safe_row rt tr"
  shows "\<exists>outs. compare_row cfg th br tr hs = Inr outs"
  unfolding compare_row_returns
  using compare_values_safe [OF dict_get_safe [OF assms(1)] dict_get_safe [OF assms(2)]]
  by (metis isl_def sum.distinct(1))

lemma py_str_safe: "safe_value rt v \<Longrightarrow> \<exists>k. py_str rt v = Inr k"
  by (cases v) (simp_all add: safe_value_def)

lemma get_row_key_safe: "safe_row rt r \<Longrightarrow> \<exists>k. get_row_key rt r = Inr k"
proof (cases r)
  case Nil
  then show ?thesis by (simp add: get_row_key_def)
next
  case (Cons p ps)
  assume "safe_row rt r"
  with Cons have "safe_value rt (snd p)" by (simp add: safe_row_def)
  from py_str_safe [OF this] Cons show ?thesis by (cases p) (simp add: get_row_key_def)
qed

lemma target_index_safe:
  assumes "\<forall>r\<in>set trs. safe_row rt r"
  shows "\<exists>idx. target_index rt trs = Inr idx"
  unfolding target_index_def index_rows_returns
  using assms get_row_key_safe by fastforce

lemma same_row_safe:
  assumes "target_index rt trs = Inr idx" and "\<forall>r\<in>set trs. safe_row rt r" and "safe_row rt br"
  shows "\<exists>outs. same_row rt cfg th hs idx br = Inr outs"
proof -
  from get_row_key_safe [OF assms(3)] obtain k where k: "get_row_key rt br = Inr k" by blast
  show ?thesis
  proof (cases "idx k")
    case None
    with k show ?thesis by (simp add: same_row_def)
  next
    case (Some tr)
    with target_index_last [OF assms(1), of k] have "last_with_key rt trs k = Some tr" by simp
    from last_with_key_Some [OF this] assms(2) have "safe_row rt tr" by blast
    from compare_row_safe [OF assms(3) this, of cfg th hs] k Some show ?thesis
      by (auto simp: same_row_def)
  qed
qed

lemma same_rows_loop_safe:
  assumes "target_index rt trs = Inr idx" and "\<forall>r\<in>set trs. safe_row rt r"
  shows "\<forall>r\<in>set brs. safe_row rt r \<Longrightarrow> \<exists>outs. same_rows_loop rt cfg th hs idx brs = Inr outs"
proof (induction brs)
  case Nil
  then show ?case by simp
next
  case (Cons br brs)
  then obtain ds where d: "same_rows_loop rt cfg th hs idx brs = Inr ds" by auto
  from Cons.prems have "safe_row rt br" by simp
  from same_row_safe [OF assms this, of cfg th hs]
  obtain cs where "same_row rt cfg th hs idx br = Inr cs" by blast
  with d show ?case by simp
qed

lemma compare_same_platform_safe:
  assumes "safe_table rt base" and "safe_table rt target"
  shows "\<exists>outs. compare_same_platform rt cfg base target th = Inr outs"
proof -
  from assms have b: "\<forall>r\<in>set (rows base). safe_row rt r"
    and t: "\<forall>r\<in>set (rows target). safe_row rt r"
    by (simp_all add: safe_table_def)
  from target_index_safe [OF t] obtain idx where i: "target_index rt (rows target) = Inr idx"
    by blast
  from same_rows_loop_safe [OF i t b, of cfg th "headers base"] i show ?thesis
    by (simp add: compare_same_platform_def)
qed


text \<open>
  C10. In a same-engine comparison that returns, every baseline row is compared against the
  last row, in the order of the target table, that has its key: the outcomes of the row are
  those of that pair, and the rows with the same key before it are not compared at all. A
  baseline row with a key no target row has gives no outcome. The comparison returns
  whenever no integer of the two tables is beyond the range of floats or the digit limit.
\<close>

theorem compare_same_platform_last_row:
  "(compare_same_platform rt cfg base target th = Inr outs \<longrightarrow>
      (\<exists>per_row. outs = concat per_row
         \<and> list_all2 (matched_outcomes rt cfg th (headers base) (rows target))
              (rows base) per_row))
   \<and> (rows target = xs @ r # ys \<and> get_row_key rt r = Inr k
        \<and> (\<forall>y\<in>set ys. get_row_key rt y \<noteq> Inr k) \<longrightarrow>
        last_with_key rt (rows target) k = Some r)
   \<and> (safe_table rt base \<and> safe_table rt target \<longrightarrow>
        (\<exists>outs. compare_same_platform rt cfg base target th = Inr outs))"
  using compare_same_platform_rows [of rt cfg base target th outs]
    last_with_key_split [of "rows target" xs r ys rt k]
    compare_same_platform_safe [of rt base target cfg th]
  by blast

lemmas key_defs =
  get_row_key_def example_limit dec_str.simps digit_char_def char_of_eq_iff example_runtime_def
  example_float_repr_def digits_exceed_def


lemma example_row_keys:
  "get_row_key example_runtime ((c, PyInt 7) # r) = Inr ''7''"
  "get_row_key example_runtime ((c, PyInt 70) # r) = Inr ''70''"
  "get_row_key example_runtime ((c, PyInt (- 12)) # r) = Inr ''-12''"
  "get_row_key example_runtime ((c, PyNone) # r) = Inr ''None''"
  "get_row_key example_runtime ((c, PyFloat (Fin 7)) # r) = Inr ''7.0''"
  "get_row_key example_runtime ((c, PyStr s) # r) = Inr s"
  by (simp_all add: key_defs)

lemmas safe_defs =
  safe_table_def safe_row_def safe_value_def float_limit_def digits_exceed_def dec_str.simps
  example_runtime_def

lemma example_safe:
  "safe_table example_runtime example_sql_base" "safe_table example_runtime example_sql_target"
  "safe_table example_runtime example_base" "safe_table example_runtime example_target"
  "safe_table example_runtime example_target_dup"
  by (simp_all add: safe_defs example_sql_base_def example_sql_target_def example_base_def
      example_target_def example_target_dup_def)

lemma example_outcome_fields:
  assumes "compare_values m bv tv th = Inr r"
    and "py_float bv = Inr b \<and> py_float tv = Inr t
         \<and> fmul (fdiv (fsub t b) (fabs b)) (Fin 100) = pc" and "b \<noteq> Fin 0"
  shows "metric_name r = m \<and> base_value r = bv \<and> target_value r = tv
       \<and> absolute_change r = Some (fsub t b) \<and> percent_change r = Some pc
       \<and> is_warning r = fst (flags th (Some pc)) \<and> is_critical r = snd (flags th (Some pc))"
  using assms by (auto simp: compare_values_numbers classify_def)


lemmas example_row_defs =
  row_outcomes_def comparable_column_def dict_has_def dict_get_def is_numeric_column_def
  text_columns_def example_config_def list_all2_Cons1


theorem compare_same_platform_last_row_witness:
  "last_with_key example_runtime (rows example_target_dup) ''DB Time''
     = Some [(''Metric'', PyStr ''DB Time''), (''Per Second'', PyInt 1300)]
   \<and> (\<exists>r. compare_same_platform example_runtime example_config example_base example_target_dup
            example_thresholds = Inr (concat [[r], []])
        \<and> base_value r = PyInt 1000 \<and> target_value r = PyInt 1300
        \<and> percent_change r = Some (Fin 30) \<and> is_critical r)"
proof -
  let ?hs = "[''Metric'', ''Per Second'']"
  let ?t1 = "[(''Metric'', PyStr ''DB Time''), (''Per Second'', PyInt 1100)]"
  let ?t2 = "[(''Metric'', PyStr ''DB Time''), (''Per Second'', PyInt 1300)]"
  let ?b1 = "[(''Metric'', PyStr ''DB Time''), (''Per Second'', PyInt 1000)]"
  let ?b2 = "[(''Metric'', PyStr ''Redo size''), (''Per Second'', PyInt 50)]"
  let ?M = "matched_outcomes example_runtime example_config example_thresholds ?hs [?t1, ?t2]"
  note T = compare_same_platform_last_row
    [of example_runtime example_config example_base example_target_dup example_thresholds _
        "[?t1]" ?t2 "[]" "''DB Time''"]
  have k: "last_with_key example_runtime (rows example_target_dup) ''DB Time'' = Some ?t2"
    using T [THEN conjunct2, THEN conjunct1]
    by (simp add: example_target_dup_def example_row_keys)
  have k2: "last_with_key example_runtime [?t1, ?t2] ''Redo size'' = None"
    by (simp add: last_with_key_def example_row_keys)
  from T [THEN conjunct2, THEN conjunct2] example_safe(3,5)
  obtain outs where e: "compare_same_platform example_runtime example_config example_base
      example_target_dup example_thresholds = Inr outs" by blast
  from T [of outs, THEN conjunct1] e
  obtain per_row where c: "outs = concat per_row" and a: "list_all2 ?M [?b1, ?b2] per_row"
    by (auto simp: example_base_def example_target_dup_def)
  from a obtain o1 o2 where p: "per_row = [o1, o2]" and a1: "?M ?b1 o1" and a2: "?M ?b2 o2"
    by (auto simp: list_all2_Cons1)
  from a2 have o2: "o2 = []" by (simp add: matched_outcomes_def example_row_keys k2)
  from k have k1: "last_with_key example_runtime [?t1, ?t2] ''DB Time'' = Some ?t2"
    by (simp add: example_target_dup_def)
  from a1 have "row_outcomes example_config example_thresholds ?hs ?b1 ?t2 o1"
    by (simp add: matched_outcomes_def example_row_keys k1)
  then obtain r where o1: "o1 = [r]"
    and v: "compare_values ''Per Second'' (PyInt 1000) (PyInt 1300) example_thresholds = Inr r"
    by (auto simp: example_row_defs)
  note f = example_outcome_fields [OF v example_percent(1)]
  have "compare_same_platform example_runtime example_config example_base example_target_dup
            example_thresholds = Inr (concat [[r], []])
        \<and> base_value r = PyInt 1000 \<and> target_value r = PyInt 1300
        \<and> percent_change r = Some (Fin 30) \<and> is_critical r"
    using e c p o1 o2 f by (simp add: flags_finite example_thresholds_def)
  then have "\<exists>r. compare_same_platform example_runtime example_config example_base
            example_target_dup example_thresholds = Inr (concat [[r], []])
        \<and> base_value r = PyInt 1000 \<and> target_value r = PyInt 1300
        \<and> percent_change r = Some (Fin 30) \<and> is_critical r"
    by (intro exI)
  with k show ?thesis by (intro conjI)
qed

section \<open>Properties of cross-engine comparison\<close>

lemma py_add_not_number: "is_number a \<Longrightarrow> \<not> is_number b \<Longrightarrow> py_add a b = Inl TypeError"
  by (cases a; cases b) (simp_all add: is_number_def)

lemma sum_from_ints: "sum_from (PyInt a) (map PyInt xs) = Inr (PyInt (a + sum_list xs))"
  by (induction xs arbitrary: a) (simp_all add: add.assoc)

lemma sum_from_append:
  "sum_from acc (xs @ ys) = (case sum_from acc xs of Inl e \<Rightarrow> Inl e | Inr s \<Rightarrow> sum_from s ys)"
  by (induction xs arbitrary: acc) (simp_all split: sum.splits)

lemma sum_from_ints_text:
  "\<not> is_number v \<Longrightarrow> sum_from (PyInt a) (map PyInt xs @ v # rest) = Inl TypeError"
  by (simp add: sum_from_append sum_from_ints py_add_not_number is_number_def)

lemma average_ints_text:
  "\<not> is_number v \<Longrightarrow> average (map PyInt xs @ v # rest) = Inl TypeError"
  by (simp add: average_def py_sum_def sum_from_ints_text)

lemma average_ints:
  "xs \<noteq> [] \<Longrightarrow>
   average (map PyInt xs) =
     (case round64 (of_int (sum_list xs) / of_nat (length xs)) of
        Fin x \<Rightarrow> Inr (Fin x)
      | _ \<Rightarrow> Inl OverflowError)"
  by (simp add: average_def py_sum_def sum_from_ints)

lemma cross_headers_loop_spec:
  "cross_headers_loop cfg th base target hs = Inr outs \<Longrightarrow>
   list_all2
     (\<lambda>h r. \<exists>ba ta. average (column_values base h) = Inr ba
                 \<and> average (column_values target h) = Inr ta
                 \<and> compare_values h (PyFloat ba) (PyFloat ta) th = Inr r)
     (filter (averaged_column cfg base target) hs) outs"
proof (induction hs arbitrary: outs)
  case Nil
  then show ?case by simp
next
  case (Cons h hs)
  show ?case
  proof (cases "averaged_column cfg base target h")
    case True
    with Cons.prems obtain ba ta r rest
      where "average (column_values base h) = Inr ba"
        "average (column_values target h) = Inr ta"
        "compare_values h (PyFloat ba) (PyFloat ta) th = Inr r"
        "cross_headers_loop cfg th base target hs = Inr rest" "outs = r # rest"
      by (auto simp: averaged_column_def split: sum.splits)
    with Cons.IH [of rest] True show ?thesis by auto
  next
    case False
    with Cons.prems have "cross_headers_loop cfg th base target hs = Inr outs"
      by (auto simp: averaged_column_def)
    from Cons.IH [OF this] False show ?thesis by simp
  qed
qed

lemma cross_headers_loop_first_error:
  assumes "averaged_column cfg base target h"
    and "average (column_values base h) = Inl e
         \<or> (\<exists>ba. average (column_values base h) = Inr ba
                \<and> average (column_values target h) = Inl e)"
  shows "cross_headers_loop cfg th base target (h # hs) = Inl e"
  using assms by (auto simp: averaged_column_def)

lemma first_seen_order_ok:
  "distinct (first_seen_order xs ys) \<and> set (first_seen_order xs ys) = set xs \<inter> set ys"
  by (auto simp: first_seen_order_def)

lemma example_runtime_ok: "set_and_ok example_runtime"
  by (simp add: set_and_ok_def example_runtime_def first_seen_order_ok)

lemma example_set_and: "set_and example_runtime = first_seen_order"
  by (simp add: example_runtime_def)

lemma compare_cross_platform_spec:
  assumes "compare_cross_platform rt cfg base target th = Inr outs"
  shows "list_all2
           (\<lambda>h r. \<exists>ba ta. average (column_values base h) = Inr ba
                       \<and> average (column_values target h) = Inr ta
                       \<and> compare_values h (PyFloat ba) (PyFloat ta) th = Inr r)
           (filter (averaged_column cfg base target)
              (set_and rt (headers base) (headers target))) outs"
  using assms unfolding compare_cross_platform_def by (rule cross_headers_loop_spec)

lemma example_events_columns:
  "column_values example_events_base ''Time'' = [PyInt 100, PyInt 200, PyInt 300]"
  "column_values example_events_target ''Time'' = [PyInt 180, PyInt 220]"
  "column_values example_events_text ''Time'' = [PyInt 100, PyStr ''N/A'']"
  by (simp_all add: column_values_def dict_get_def example_events_base_def
      example_events_target_def example_events_text_def)

lemma example_events_headers:
  "headers example_events_base = [''Event'', ''Time'']"
  "headers example_events_target = [''Event'', ''Time'']"
  "headers example_events_text = [''Event'', ''Time'']"
  by (simp_all add: example_events_base_def example_events_target_def example_events_text_def)

lemma example_time_numeric: "is_numeric_column example_config ''Time''"
  by (simp add: is_numeric_column_def example_config_def text_columns_def)

lemma example_event_text: "\<not> is_numeric_column example_config ''Event''"
  by (simp add: is_numeric_column_def example_config_def text_columns_def)

lemma example_means:
  "average [PyInt 100, PyInt 200, PyInt 300] = Inr (Fin 200)"
  "average [PyInt 180, PyInt 220] = Inr (Fin 200)"
  "average [PyInt 100, PyStr ''N/A''] = Inl TypeError"
  by (simp_all add: average_def py_sum_def round_defs)

lemma example_equal_means:
  "compare_values ''Time'' (PyFloat (Fin 200)) (PyFloat (Fin 200)) example_thresholds
   = Inr \<lparr>metric_name = ''Time'', base_value = PyFloat (Fin 200),
           target_value = PyFloat (Fin 200), absolute_change = Some (Fin 0),
           percent_change = Some (Fin 0), is_warning = False, is_critical = False\<rparr>"
  by (simp add: compare_values_numbers classify_def flags_finite fsub_def
      example_thresholds_def round_defs)

lemma example_cross_means:
  "compare_cross_platform example_runtime example_config example_events_base
     example_events_target example_thresholds
   = Inr [\<lparr>metric_name = ''Time'', base_value = PyFloat (Fin 200),
           target_value = PyFloat (Fin 200), absolute_change = Some (Fin 0),
           percent_change = Some (Fin 0), is_warning = False, is_critical = False\<rparr>]"
  by (simp add: compare_cross_platform_def example_events_headers example_events_columns
      example_time_numeric example_event_text example_set_and first_seen_order_def
      example_means example_equal_means)

lemma example_cross_text:
  "compare_cross_platform example_runtime example_config example_events_text
     example_events_target example_thresholds = Inl TypeError"
  by (simp add: compare_cross_platform_def example_events_headers example_events_columns
      example_time_numeric example_event_text example_set_and first_seen_order_def
      example_means)

text \<open>
  C5. On the tables of the claim's example (baseline "Time" 100, 200, 300; target 180, 220)
  cross-engine comparison gives the one outcome of the two means, 200 and 200, with changes
  0 and no flag. On a baseline whose numeric-classified common column "Time" holds the
  values 100 and "N/A" it gives no outcome: the sum of the column raises \<open>TypeError\<close>.
  For all tables, \<open>compare_cross_platform_spec\<close> above gives the outcomes of a call that
  returns, and \<open>average_ints_text\<close> the error of a column of integers followed by a text.
\<close>

theorem cross_platform_text_column_raises:
  "compare_cross_platform example_runtime example_config example_events_base
     example_events_target example_thresholds
   = Inr [\<lparr>metric_name = ''Time'', base_value = PyFloat (Fin 200),
           target_value = PyFloat (Fin 200), absolute_change = Some (Fin 0),
           percent_change = Some (Fin 0), is_warning = False, is_critical = False\<rparr>]
   \<and> is_numeric_column example_config ''Time''
   \<and> column_values example_events_text ''Time'' = [PyInt 100, PyStr ''N/A'']
   \<and> column_values example_events_target ''Time'' = [PyInt 180, PyInt 220]
   \<and> compare_cross_platform example_runtime example_config example_events_text
        example_events_target example_thresholds = Inl TypeError"
  by (simp add: example_cross_means example_cross_text example_time_numeric
      example_events_columns)

section \<open>Properties of a comparison call\<close>

lemma compare_reports_unfold:
  "compare_reports rt cfg bp tp sel =
     (case tables_loop rt cfg (get_thresholds cfg (report_mode bp tp)) (report_mode bp tp) bp tp
             (selected_names rt bp tp sel) of
        Inl e \<Rightarrow> Inl e
      | Inr tcs \<Rightarrow>
          Inr \<lparr>comparison_type = report_mode bp tp, base_metadata = metadata bp,
               target_metadata = metadata tp, table_comparisons = tcs,
               thresholds = get_thresholds cfg (report_mode bp tp),
               summary = generate_summary tcs\<rparr>)"
  unfolding compare_reports_def Let_def selected_names_def report_mode_def ..

lemma compare_tables_cases:
  "compare_tables rt cfg n bt tt th ct =
     (case table_outcomes rt cfg bt tt th ct of
        Inl e \<Rightarrow> Inl e
      | Inr cs \<Rightarrow>
          if cs = [] then Inr None
          else Inr (Some \<lparr>table_name = n, table_description = get_table_description cfg n,
                           base_table = bt, target_table = tt, comparisons = cs\<rparr>))"
  by (simp add: compare_tables_def table_outcomes_def)

lemma tables_loop_skip:
  "\<not> both_present bp tp n \<Longrightarrow>
   tables_loop rt cfg th ct bp tp (n # ns) = tables_loop rt cfg th ct bp tp ns"
  by (auto simp: both_present_def truthy_table_def split: option.splits)

lemma tables_loop_step:
  assumes "both_present bp tp n"
  obtains bt tt where "get_table bp n = Some bt" "get_table tp n = Some tt"
    "tables_loop rt cfg th ct bp tp (n # ns) =
       (case compare_tables rt cfg n bt tt th ct of
          Inl e \<Rightarrow> Inl e
        | Inr comparison \<Rightarrow>
            (case tables_loop rt cfg th ct bp tp ns of
               Inl e \<Rightarrow> Inl e
             | Inr tcs \<Rightarrow> Inr (case comparison of None \<Rightarrow> tcs | Some c \<Rightarrow> c # tcs)))"
proof -
  from assms obtain bt tt where g: "get_table bp n = Some bt" "get_table tp n = Some tt"
    and r: "rows bt \<noteq> []" "rows tt \<noteq> []"
    by (auto simp: both_present_def truthy_table_def split: option.splits)
  then show ?thesis by (intro that [of bt tt]) (simp_all add: truthy_table_def)
qed

lemma tables_loop_present:
  assumes "get_table bp n = Some bt" "get_table tp n = Some tt" "rows bt \<noteq> []" "rows tt \<noteq> []"
  shows "tables_loop rt cfg th ct bp tp (n # ns) =
       (case compare_tables rt cfg n bt tt th ct of
          Inl e \<Rightarrow> Inl e
        | Inr comparison \<Rightarrow>
            (case tables_loop rt cfg th ct bp tp ns of
               Inl e \<Rightarrow> Inl e
             | Inr tcs \<Rightarrow> Inr (case comparison of None \<Rightarrow> tcs | Some c \<Rightarrow> c # tcs)))"
  using assms by (simp add: truthy_table_def)

lemma both_present_tables:
  "both_present bp tp n \<Longrightarrow>
   \<exists>bt tt. get_table bp n = Some bt \<and> get_table tp n = Some tt \<and> rows bt \<noteq> [] \<and> rows tt \<noteq> []"
  by (auto simp: both_present_def truthy_table_def split: option.splits)

lemma tables_loop_filter:
  "tables_loop rt cfg th ct bp tp (filter (both_present bp tp) ns)
   = tables_loop rt cfg th ct bp tp ns"
proof (induction ns)
  case Nil
  then show ?case by simp
next
  case (Cons n ns)
  show ?case
  proof (cases "both_present bp tp n")
    case False
    with Cons show ?thesis by (simp add: tables_loop_skip del: tables_loop.simps)
  next
    case True
    from both_present_tables [OF True] obtain bt tt
      where g: "get_table bp n = Some bt" "get_table tp n = Some tt" "rows bt \<noteq> []" "rows tt \<noteq> []"
      by blast
    have "tables_loop rt cfg th ct bp tp (filter (both_present bp tp) (n # ns))
          = tables_loop rt cfg th ct bp tp (n # filter (both_present bp tp) ns)"
      using True by simp
    also have "\<dots> = tables_loop rt cfg th ct bp tp (n # ns)"
      unfolding tables_loop_present [OF g] Cons.IH ..
    finally show ?thesis .
  qed
qed

lemma tables_loop_spec:
  "tables_loop rt cfg th ct bp tp ns = Inr tcs \<Longrightarrow>
   map table_name tcs = filter (yields_outcomes rt cfg th ct bp tp) ns
   \<and> (\<forall>tc\<in>set tcs. comparisons tc \<noteq> [])"
proof (induction ns arbitrary: tcs)
  case Nil
  then show ?case by simp
next
  case (Cons n ns)
  show ?case
  proof (cases "both_present bp tp n")
    case False
    with Cons.prems have "tables_loop rt cfg th ct bp tp ns = Inr tcs"
      by (simp add: tables_loop_skip del: tables_loop.simps)
    from Cons.IH [OF this] False show ?thesis by (simp add: yields_outcomes_def)
  next
    case True
    from tables_loop_step [OF True, of rt cfg th ct ns]
    obtain bt tt where g: "get_table bp n = Some bt" "get_table tp n = Some tt"
      and s: "tables_loop rt cfg th ct bp tp (n # ns) =
       (case compare_tables rt cfg n bt tt th ct of
          Inl e \<Rightarrow> Inl e
        | Inr comparison \<Rightarrow>
            (case tables_loop rt cfg th ct bp tp ns of
               Inl e \<Rightarrow> Inl e
             | Inr tcs \<Rightarrow> Inr (case comparison of None \<Rightarrow> tcs | Some c \<Rightarrow> c # tcs)))"
      by blast
    from Cons.prems s obtain comparison rest
      where c: "compare_tables rt cfg n bt tt th ct = Inr comparison"
      and r: "tables_loop rt cfg th ct bp tp ns = Inr rest"
      and t: "tcs = (case comparison of None \<Rightarrow> rest | Some c \<Rightarrow> c # rest)"
      by (auto split: sum.splits)
    from c obtain outs where o: "table_outcomes rt cfg bt tt th ct = Inr outs"
      and co: "comparison = (if outs = [] then None
                 else Some \<lparr>table_name = n, table_description = get_table_description cfg n,
                           base_table = bt, target_table = tt, comparisons = outs\<rparr>)"
      by (auto simp: compare_tables_cases split: sum.splits if_splits)
    have y: "yields_outcomes rt cfg th ct bp tp n \<longleftrightarrow> outs \<noteq> []"
      using True g o by (simp add: yields_outcomes_def)
    from Cons.IH [OF r] t co y show ?thesis by auto
  qed
qed

lemma generate_summary_total: "total_tables (generate_summary tcs) = length tcs"
  by (simp add: generate_summary_def Let_def)

lemma get_table_safe:
  assumes "safe_report rt p" and "get_table p n = Some t"
  shows "safe_table rt t"
proof -
  from assms(2) have "(n, t) \<in> set (tables p)" unfolding get_table_def by (rule map_of_SomeD)
  with assms(1) show ?thesis by (auto simp: safe_report_def)
qed

lemma tables_loop_same_engine:
  assumes "ct \<noteq> CROSS_PLATFORM" and "safe_report rt bp" and "safe_report rt tp"
  shows "\<exists>tcs. tables_loop rt cfg th ct bp tp ns = Inr tcs"
proof (induction ns)
  case Nil
  then show ?case by simp
next
  case (Cons n ns)
  then obtain rest where r: "tables_loop rt cfg th ct bp tp ns = Inr rest" by blast
  show ?case
  proof (cases "both_present bp tp n")
    case False
    with r show ?thesis by (simp add: tables_loop_skip del: tables_loop.simps)
  next
    case True
    from tables_loop_step [OF True, of rt cfg th ct ns]
    obtain bt tt where g: "get_table bp n = Some bt" "get_table tp n = Some tt"
      and s: "tables_loop rt cfg th ct bp tp (n # ns) =
       (case compare_tables rt cfg n bt tt th ct of
          Inl e \<Rightarrow> Inl e
        | Inr comparison \<Rightarrow>
            (case tables_loop rt cfg th ct bp tp ns of
               Inl e \<Rightarrow> Inl e
             | Inr tcs \<Rightarrow> Inr (case comparison of None \<Rightarrow> tcs | Some c \<Rightarrow> c # tcs)))"
      by blast
    from get_table_safe [OF assms(2) g(1)] get_table_safe [OF assms(3) g(2)]
    obtain outs where "compare_same_platform rt cfg bt tt th = Inr outs"
      using compare_same_platform_safe by blast
    with assms(1) have "\<exists>c. compare_tables rt cfg n bt tt th ct = Inr c"
      by (simp add: compare_tables_cases table_outcomes_def)
    with s r show ?thesis by auto
  qed
qed

lemma compare_reports_same_engine:
  assumes "report_mode bp tp \<noteq> CROSS_PLATFORM" and "safe_report rt bp" and "safe_report rt tp"
  shows "\<exists>res. compare_reports rt cfg bp tp sel = Inr res"
  using tables_loop_same_engine
    [OF assms, of cfg "get_thresholds cfg (report_mode bp tp)" "selected_names rt bp tp sel"]
  by (auto simp: compare_reports_unfold)

lemma example_modes:
  "report_mode example_awr example_pg = CROSS_PLATFORM"
  "report_mode example_awr example_awr_later = ORACLE_ORACLE"
  "report_mode example_awr example_awr = ORACLE_ORACLE"
  by (simp_all add: report_mode_def determine_comparison_type_def example_awr_def example_pg_def
      example_awr_later_def example_metadata_def)

lemma example_thresholds_of: "get_thresholds example_config ct = example_thresholds"
  by (simp add: get_thresholds_def get_thresholds_cfg_def example_config_def)

lemma example_tables:
  "get_table example_awr n =
     (if n = ''load_profile'' then Some example_base
      else if n = ''wait_events'' then Some example_events_text else None)"
  "get_table example_awr_later n = (if n = ''load_profile'' then Some example_target else None)"
  "get_table example_pg n = (if n = ''wait_events'' then Some example_events_target else None)"
  by (simp_all add: get_table_def example_awr_def example_awr_later_def example_pg_def)

lemma example_rows:
  "rows example_base \<noteq> []" "rows example_target \<noteq> []"
  "rows example_events_text \<noteq> []" "rows example_events_target \<noteq> []"
  by (simp_all add: example_base_def example_target_def example_events_text_def
      example_events_target_def)

lemma example_available:
  "get_available_tables example_awr = [''load_profile'', ''wait_events'']"
  "get_available_tables example_awr_later = [''load_profile'']"
  "get_available_tables example_pg = [''wait_events'']"
  by (simp_all add: get_available_tables_def example_awr_def example_awr_later_def example_pg_def)

lemma example_common:
  "get_common_tables example_runtime example_awr example_pg = [''wait_events'']"
  "get_common_tables example_runtime example_awr example_awr_later = [''load_profile'']"
  by (simp_all add: get_common_tables_def example_available example_runtime_def
      first_seen_order_def)

lemma example_both_present:
  "both_present example_awr example_awr_later n \<longleftrightarrow> n = ''load_profile''"
  "both_present example_awr example_pg n \<longleftrightarrow> n = ''wait_events''"
  by (auto simp: both_present_def truthy_table_def example_tables example_rows)

lemma example_reports_safe:
  "safe_report example_runtime example_awr" "safe_report example_runtime example_awr_later"
  "safe_report example_runtime example_pg"
  by (simp_all add: safe_report_def example_awr_def example_awr_later_def example_pg_def
      example_safe, simp_all add: safe_defs example_events_text_def example_events_target_def)

lemma example_same_outcomes:
  "\<exists>r. compare_same_platform example_runtime example_config example_base example_target
         example_thresholds = Inr [r]"
proof -
  obtain r where "compare_values ''Per Second'' (PyInt 1000) (PyInt 1300) example_thresholds
      = Inr r"
    by (rule compare_values_percent [OF example_percent(1)]) simp
  then show ?thesis
    by (simp add: compare_same_platform_def target_index_def same_row_def example_row_keys
        example_base_def example_target_def dict_has_def dict_get_def is_numeric_column_def
        text_columns_def example_config_def)
qed

lemma example_cross_report:
  assumes "selected_names example_runtime example_awr example_pg sel = [''wait_events'']"
  shows "compare_reports example_runtime example_config example_awr example_pg sel = Inl TypeError"
proof -
  have g: "get_table example_awr ''wait_events'' = Some example_events_text"
    "get_table example_pg ''wait_events'' = Some example_events_target"
    by (simp_all add: example_tables)
  have "tables_loop example_runtime example_config example_thresholds CROSS_PLATFORM
          example_awr example_pg [''wait_events''] = Inl TypeError"
    by (subst tables_loop_present [OF g example_rows(3,4)])
       (simp add: compare_tables_cases table_outcomes_def example_cross_text)
  then show ?thesis
    by (simp add: compare_reports_unfold example_modes example_thresholds_of assms)
qed

text \<open>
  C6. A text cell that normalisation left as a string is not kept out of cross-engine
  averaging: the cell "N/A" normalises to the string "N/A", the column "Time" that holds it
  is classified numeric, and a cross-engine comparison call over reports with that column
  raises \<open>TypeError\<close> instead of returning, whether the table is selected by name or by
  default. A same-engine call on the same baseline report returns.
\<close>

theorem cross_engine_text_cell_raises:
  "normalize_value example_runtime ''N/A'' = Inr (PyStr ''N/A'')
   \<and> dict_get (rows example_events_text ! 1) ''Time'' = PyStr ''N/A''
   \<and> is_numeric_column example_config ''Time''
   \<and> compare_reports example_runtime example_config example_awr example_pg None = Inl TypeError
   \<and> compare_reports example_runtime example_config example_awr example_pg
        (Some [''wait_events'']) = Inl TypeError
   \<and> (\<exists>res. compare_reports example_runtime example_config example_awr example_awr
              (Some [''wait_events'']) = Inr res)"
proof -
  have 1: "normalize_value example_runtime ''N/A'' = Inr (PyStr ''N/A'')"
    by (simp add: normalize_defs literal_defs char_of_eq_iff)
  have 2: "dict_get (rows example_events_text ! 1) ''Time'' = PyStr ''N/A''"
    by (simp add: example_events_text_def dict_get_def)
  have 3: "compare_reports example_runtime example_config example_awr example_pg None = Inl TypeError"
    by (rule example_cross_report) (simp add: selected_names_def example_common)
  have 4: "compare_reports example_runtime example_config example_awr example_pg
        (Some [''wait_events'']) = Inl TypeError"
    by (rule example_cross_report) (simp add: selected_names_def)
  have 5: "\<exists>res. compare_reports example_runtime example_config example_awr example_awr
              (Some [''wait_events'']) = Inr res"
    by (rule compare_reports_same_engine) (simp_all add: example_modes example_reports_safe)
  from 1 2 3 4 5 example_time_numeric show ?thesis by blast
qed

lemma yields_both_present: "yields_outcomes rt cfg th ct bp tp n \<Longrightarrow> both_present bp tp n"
  by (simp add: yields_outcomes_def)

text \<open>
  C8. In the result of a comparison call the table diffs are, in order, those of the
  selected names that are present in both reports and whose tables give at least one
  outcome; every table diff has at least one outcome; \<open>total_tables\<close> of the summary is the
  number of table diffs; and a name not present in both reports has no table diff.
\<close>

theorem compare_reports_table_diffs:
  assumes "compare_reports rt cfg bp tp sel = Inr res"
  shows "map table_name (table_comparisons res)
           = filter (yields_outcomes rt cfg (get_thresholds cfg (report_mode bp tp))
                       (report_mode bp tp) bp tp)
               (selected_names rt bp tp sel)
       \<and> (\<forall>tc\<in>set (table_comparisons res). comparisons tc \<noteq> [])
       \<and> total_tables (summary res) = length (table_comparisons res)
       \<and> (\<forall>n. \<not> both_present bp tp n \<longrightarrow> n \<notin> table_name ` set (table_comparisons res))"
proof -
  let ?th = "get_thresholds cfg (report_mode bp tp)" and ?ct = "report_mode bp tp"
  from assms obtain tcs
    where l: "tables_loop rt cfg ?th ?ct bp tp (selected_names rt bp tp sel) = Inr tcs"
    and r: "table_comparisons res = tcs" "summary res = generate_summary tcs"
    by (auto simp: compare_reports_unfold split: sum.splits)
  from tables_loop_spec [OF l]
  have n: "map table_name tcs
             = filter (yields_outcomes rt cfg ?th ?ct bp tp) (selected_names rt bp tp sel)"
    and c: "\<forall>tc\<in>set tcs. comparisons tc \<noteq> []" by simp_all
  have p: "\<forall>n. \<not> both_present bp tp n \<longrightarrow> n \<notin> table_name ` set tcs"
  proof (intro allI impI notI)
    fix x assume a: "\<not> both_present bp tp x" and "x \<in> table_name ` set tcs"
    then have "x \<in> set (map table_name tcs)" by simp
    with n have "yields_outcomes rt cfg ?th ?ct bp tp x" by simp
    with a yields_both_present show False by blast
  qed
  from n c p r show ?thesis by (simp add: generate_summary_total)
qed

theorem compare_reports_table_diffs_witness:
  "\<exists>res. compare_reports example_runtime example_config example_awr example_awr_later
            (Some [''load_profile'', ''wait_events'']) = Inr res
        \<and> map table_name (table_comparisons res) = [''load_profile'']
        \<and> total_tables (summary res) = 1
        \<and> \<not> both_present example_awr example_awr_later ''wait_events''"
proof -
  let ?sel = "Some [''load_profile'', ''wait_events'']"
  obtain res where res: "compare_reports example_runtime example_config example_awr
      example_awr_later ?sel = Inr res"
    by (rule exE [OF compare_reports_same_engine [of example_awr example_awr_later
            example_runtime example_config]])
       (simp_all add: example_modes example_reports_safe)
  note T = compare_reports_table_diffs [OF res]
  have y1: "yields_outcomes example_runtime example_config example_thresholds ORACLE_ORACLE
             example_awr example_awr_later ''load_profile''"
    using example_same_outcomes
    by (auto simp: yields_outcomes_def example_both_present example_tables table_outcomes_def)
  have y2: "\<not> yields_outcomes example_runtime example_config example_thresholds ORACLE_ORACLE
             example_awr example_awr_later ''wait_events''"
    by (simp add: yields_outcomes_def example_both_present)
  from T y1 y2 have n: "map table_name (table_comparisons res) = [''load_profile'']"
    by (simp add: example_modes example_thresholds_of selected_names_def)
  from T [THEN conjunct2, THEN conjunct2, THEN conjunct1]
  have "total_tables (summary res) = length (map table_name (table_comparisons res))"
    by (simp only: length_map)
  with n have t: "total_tables (summary res) = 1" by simp
  have "\<not> both_present example_awr example_awr_later ''wait_events''"
    by (simp add: example_both_present)
  with res n t show ?thesis by (intro exI [of _ res] conjI)
qed

lemma tables_loop_cons:
  assumes "both_present bp tp n"
  shows "tables_loop rt cfg th ct bp tp (n # ns) =
       (case pair_diff rt cfg th ct bp tp n of
          Inl e \<Rightarrow> Inl e
        | Inr comparison \<Rightarrow>
            (case tables_loop rt cfg th ct bp tp ns of
               Inl e \<Rightarrow> Inl e
             | Inr tcs \<Rightarrow> Inr (case comparison of None \<Rightarrow> tcs | Some c \<Rightarrow> c # tcs)))"
proof -
  from both_present_tables [OF assms] obtain bt tt
    where g: "get_table bp n = Some bt" "get_table tp n = Some tt" "rows bt \<noteq> []" "rows tt \<noteq> []"
    by blast
  have "pair_diff rt cfg th ct bp tp n = compare_tables rt cfg n bt tt th ct"
    by (simp add: pair_diff_def g)
  then show ?thesis unfolding tables_loop_present [OF g] by simp
qed

lemma tables_loop_diffs:
  "tables_loop rt cfg th ct bp tp ns = Inr tcs \<Longrightarrow>
   tcs = concat (map (\<lambda>n. diff_list (pair_diff rt cfg th ct bp tp n))
                   (filter (both_present bp tp) ns))"
proof (induction ns arbitrary: tcs)
  case Nil
  then show ?case by simp
next
  case (Cons n ns)
  show ?case
  proof (cases "both_present bp tp n")
    case False
    with Cons.prems have "tables_loop rt cfg th ct bp tp ns = Inr tcs"
      by (simp add: tables_loop_skip del: tables_loop.simps)
    from Cons.IH [OF this] False show ?thesis by simp
  next
    case True
    from Cons.prems obtain comparison rest
      where c: "pair_diff rt cfg th ct bp tp n = Inr comparison"
      and r: "tables_loop rt cfg th ct bp tp ns = Inr rest"
      and t: "tcs = (case comparison of None \<Rightarrow> rest | Some c \<Rightarrow> c # rest)"
      unfolding tables_loop_cons [OF True] by (auto split: sum.splits)
    from Cons.IH [OF r] t c True show ?thesis
      by (cases comparison) (simp_all add: diff_list_def)
  qed
qed

lemma tables_loop_returns:
  "(\<exists>tcs. tables_loop rt cfg th ct bp tp ns = Inr tcs)
   \<longleftrightarrow> (\<forall>n\<in>set (filter (both_present bp tp) ns). \<not> isl (pair_diff rt cfg th ct bp tp n))"
proof (induction ns)
  case Nil
  then show ?case by simp
next
  case (Cons n ns)
  show ?case
  proof (cases "both_present bp tp n")
    case False
    with Cons show ?thesis by (simp add: tables_loop_skip del: tables_loop.simps)
  next
    case True
    have "(\<exists>tcs. tables_loop rt cfg th ct bp tp (n # ns) = Inr tcs)
          \<longleftrightarrow> \<not> isl (pair_diff rt cfg th ct bp tp n)
              \<and> (\<exists>tcs. tables_loop rt cfg th ct bp tp ns = Inr tcs)"
      unfolding tables_loop_cons [OF True] by (auto split: sum.splits)
    with Cons True show ?thesis by simp
  qed
qed

lemma compare_reports_returns:
  "(\<exists>res. compare_reports rt cfg bp tp sel = Inr res)
   \<longleftrightarrow> (\<exists>tcs. tables_loop rt cfg (get_thresholds cfg (report_mode bp tp)) (report_mode bp tp)
               bp tp (selected_names rt bp tp sel) = Inr tcs)"
  by (auto simp: compare_reports_unfold split: sum.splits)

lemma compare_reports_loop:
  "compare_reports rt cfg bp tp sel = Inr res \<Longrightarrow>
   tables_loop rt cfg (get_thresholds cfg (report_mode bp tp)) (report_mode bp tp)
     bp tp (selected_names rt bp tp sel) = Inr (table_comparisons res)"
  by (auto simp: compare_reports_unfold split: sum.splits)

lemma compare_reports_compared:
  "compare_reports rt cfg bp tp sel
   = compare_reports rt cfg bp tp (Some (compared_names rt bp tp sel))"
proof -
  have "selected_names rt bp tp (Some (compared_names rt bp tp sel))
        = filter (both_present bp tp) (selected_names rt bp tp sel)"
    by (simp add: selected_names_def compared_names_def)
  then show ?thesis
    by (simp only: compare_reports_unfold tables_loop_filter)
qed

lemma compare_reports_empty:
  "\<exists>res. compare_reports rt cfg bp tp (Some []) = Inr res \<and> table_comparisons res = []
         \<and> total_tables (summary res) = 0"
  by (simp add: compare_reports_unfold selected_names_def generate_summary_def)

text \<open>
  C9. With no selection the names compared are, without repetition, the names available in
  both reports whose tables are present in both; with a selection they are the names
  of the selection, in order, those not present in both reports skipped. The pairs of tables
  of exactly these names are compared: the call returns a result when the comparison of
  each of these pairs returns, and the table diffs of the result are those the pairs give,
  in the order of the names. A call with the empty list as selection returns a result
  without table diffs. A call gives the same result, error or not, as a call that selects
  exactly the names compared.
\<close>

theorem table_selection:
  assumes "set_and_ok rt"
    and "th = get_thresholds cfg (report_mode bp tp)" and "ct = report_mode bp tp"
  shows "(sel = None \<longrightarrow>
            distinct (compared_names rt bp tp sel)
          \<and> set (compared_names rt bp tp sel)
              = {n \<in> set (get_available_tables bp) \<inter> set (get_available_tables tp).
                   both_present bp tp n})
       \<and> (\<forall>ns. sel = Some ns \<longrightarrow> compared_names rt bp tp sel = filter (both_present bp tp) ns)
       \<and> ((\<exists>res. compare_reports rt cfg bp tp sel = Inr res)
            \<longleftrightarrow> (\<forall>n\<in>set (compared_names rt bp tp sel). \<not> isl (pair_diff rt cfg th ct bp tp n)))
       \<and> (\<forall>res. compare_reports rt cfg bp tp sel = Inr res \<longrightarrow>
             table_comparisons res
             = concat (map (\<lambda>n. diff_list (pair_diff rt cfg th ct bp tp n))
                         (compared_names rt bp tp sel)))
       \<and> (\<exists>res. compare_reports rt cfg bp tp (Some []) = Inr res \<and> table_comparisons res = []
                \<and> total_tables (summary res) = 0)
       \<and> compare_reports rt cfg bp tp sel
          = compare_reports rt cfg bp tp (Some (compared_names rt bp tp sel))"
proof -
  from assms(1) have "distinct (get_common_tables rt bp tp)"
    and "set (get_common_tables rt bp tp)
         = set (get_available_tables bp) \<inter> set (get_available_tables tp)"
    by (simp_all add: set_and_ok_def get_common_tables_def)
  then have 1: "sel = None \<longrightarrow>
            distinct (compared_names rt bp tp sel)
          \<and> set (compared_names rt bp tp sel)
              = {n \<in> set (get_available_tables bp) \<inter> set (get_available_tables tp).
                   both_present bp tp n}"
    by (auto simp: compared_names_def selected_names_def)
  have 2: "\<forall>ns. sel = Some ns \<longrightarrow> compared_names rt bp tp sel = filter (both_present bp tp) ns"
    by (simp add: compared_names_def selected_names_def)
  have 3: "(\<exists>res. compare_reports rt cfg bp tp sel = Inr res)
            \<longleftrightarrow> (\<forall>n\<in>set (compared_names rt bp tp sel). \<not> isl (pair_diff rt cfg th ct bp tp n))"
    unfolding compare_reports_returns tables_loop_returns compared_names_def assms(2,3) ..
  have 4: "\<forall>res. compare_reports rt cfg bp tp sel = Inr res \<longrightarrow>
             table_comparisons res
             = concat (map (\<lambda>n. diff_list (pair_diff rt cfg th ct bp tp n))
                         (compared_names rt bp tp sel))"
    unfolding compared_names_def assms(2,3)
    by (intro allI impI tables_loop_diffs compare_reports_loop)
  from 1 2 3 4 compare_reports_empty [of rt cfg bp tp]
    compare_reports_compared [of rt cfg bp tp sel]
  show ?thesis by blast
qed

lemma example_pair_diff:
  "\<exists>tc. pair_diff example_runtime example_config example_thresholds ORACLE_ORACLE
          example_awr example_awr_later ''load_profile'' = Inr (Some tc)
        \<and> table_name tc = ''load_profile''"
proof -
  from example_same_outcomes obtain r
    where "compare_same_platform example_runtime example_config example_base example_target
         example_thresholds = Inr [r]" by blast
  then show ?thesis
    by (simp add: pair_diff_def example_tables compare_tables_cases table_outcomes_def)
qed

lemma example_compared:
  "compared_names example_runtime example_awr example_awr_later None = [''load_profile'']"
  "compared_names example_runtime example_awr example_awr_later (Some []) = []"
  "compared_names example_runtime example_awr example_awr_later
     (Some [''load_profile'', ''wait_events'', ''sql_statistics'']) = [''load_profile'']"
  by (simp_all add: compared_names_def selected_names_def example_common example_both_present)

theorem table_selection_witness:
  "set_and_ok example_runtime
   \<and> set (compared_names example_runtime example_awr example_awr_later None) = {''load_profile''}
   \<and> (\<exists>res. compare_reports example_runtime example_config example_awr example_awr_later None
              = Inr res
            \<and> map table_name (table_comparisons res) = [''load_profile''])
   \<and> compared_names example_runtime example_awr example_awr_later
        (Some [''load_profile'', ''wait_events'', ''sql_statistics'']) = [''load_profile'']
   \<and> (\<exists>res. compare_reports example_runtime example_config example_awr example_awr_later
              (Some [''load_profile'', ''wait_events'', ''sql_statistics'']) = Inr res
            \<and> map table_name (table_comparisons res) = [''load_profile''])
   \<and> (\<exists>res. compare_reports example_runtime example_config example_awr example_awr_later
              (Some []) = Inr res \<and> table_comparisons res = [])"
proof -
  let ?sel = "Some [''load_profile'', ''wait_events'', ''sql_statistics'']"
  have th: "example_thresholds
            = get_thresholds example_config (report_mode example_awr example_awr_later)"
    and ct: "ORACLE_ORACLE = report_mode example_awr example_awr_later"
    by (simp_all add: example_thresholds_of example_modes)
  note T = table_selection [OF example_runtime_ok th ct]
  from example_pair_diff obtain tc
    where d: "pair_diff example_runtime example_config example_thresholds ORACLE_ORACLE
          example_awr example_awr_later ''load_profile'' = Inr (Some tc)"
    and n: "table_name tc = ''load_profile''" by blast
  from T [where sel = None, THEN conjunct1]
  have a: "set (compared_names example_runtime example_awr example_awr_later None)
            = {''load_profile''}"
    by (auto simp: example_available example_both_present)
  from T [where sel = None, THEN conjunct2, THEN conjunct2, THEN conjunct1] d
  obtain res1 where r1: "compare_reports example_runtime example_config example_awr
      example_awr_later None = Inr res1"
    by (auto simp: example_compared)
  from T [where sel = None, THEN conjunct2, THEN conjunct2, THEN conjunct2, THEN conjunct1,
      rule_format, OF r1] d n
  have n1: "map table_name (table_comparisons res1) = [''load_profile'']"
    by (simp add: example_compared diff_list_def)
  from T [where sel = "?sel", THEN conjunct2, THEN conjunct1]
  have c: "compared_names example_runtime example_awr example_awr_later ?sel = [''load_profile'']"
    by (simp add: example_both_present)
  from T [where sel = "?sel", THEN conjunct2, THEN conjunct2, THEN conjunct1] d
  obtain res2 where r2: "compare_reports example_runtime example_config example_awr
      example_awr_later ?sel = Inr res2"
    by (auto simp: c)
  from T [where sel = "?sel", THEN conjunct2, THEN conjunct2, THEN conjunct2, THEN conjunct1,
      rule_format, OF r2] d n
  have n2: "map table_name (table_comparisons res2) = [''load_profile'']"
    by (simp add: c diff_list_def)
  from T [where sel = None, THEN conjunct2, THEN conjunct2, THEN conjunct2, THEN conjunct2,
      THEN conjunct1]
  obtain res3 where r3: "compare_reports example_runtime example_config example_awr
      example_awr_later (Some []) = Inr res3" and n3: "table_comparisons res3 = []"
    by blast
  have 1: "\<exists>res. compare_reports example_runtime example_config example_awr example_awr_later
      None = Inr res \<and> map table_name (table_comparisons res) = [''load_profile'']"
    using r1 n1 by (intro exI [of _ res1] conjI)
  have 2: "\<exists>res. compare_reports example_runtime example_config example_awr example_awr_later
      ?sel = Inr res \<and> map table_name (table_comparisons res) = [''load_profile'']"
    using r2 n2 by (intro exI [of _ res2] conjI)
  have 3: "\<exists>res. compare_reports example_runtime example_config example_awr example_awr_later
      (Some []) = Inr res \<and> table_comparisons res = []"
    using r3 n3 by (intro exI [of _ res3] conjI)
  from example_runtime_ok a 1 c 2 3 show ?thesis by (intro conjI)
qed

text \<open>
  An empty selection is not read as no selection: with the table "load_profile" present in
  both reports, the call with the empty list compares no table and returns no table diff,
  where the call with no selection compares "load_profile".
\<close>

theorem table_selection_empty_list_counterexample:
  "\<not> selection_as_claimed example_runtime example_awr example_awr_later (Some [])
   \<and> set (get_available_tables example_awr) \<inter> set (get_available_tables example_awr_later)
       = {''load_profile''}
   \<and> both_present example_awr example_awr_later ''load_profile''
   \<and> compared_names example_runtime example_awr example_awr_later (Some []) = []
   \<and> (\<exists>res. compare_reports example_runtime example_config example_awr example_awr_later
              (Some []) = Inr res \<and> table_comparisons res = [])
   \<and> (\<exists>res. compare_reports example_runtime example_config example_awr example_awr_later
              None = Inr res \<and> map table_name (table_comparisons res) = [''load_profile''])"
proof -
  have 1: "\<not> selection_as_claimed example_runtime example_awr example_awr_later (Some [])"
    by (auto simp: selection_as_claimed_def example_compared example_available
        example_both_present)
  have 2: "set (get_available_tables example_awr) \<inter> set (get_available_tables example_awr_later)
       = {''load_profile''}"
    by (simp add: example_available)
  have 3: "both_present example_awr example_awr_later ''load_profile''"
    by (simp add: example_both_present)
  have 4: "\<exists>res. compare_reports example_runtime example_config example_awr example_awr_later
              (Some []) = Inr res \<and> table_comparisons res = []"
    by (simp add: compare_reports_unfold selected_names_def)
  obtain res where res: "compare_reports example_runtime example_config example_awr
      example_awr_later None = Inr res"
    by (rule exE [OF compare_reports_same_engine [of example_awr example_awr_later
            example_runtime example_config]])
       (simp_all add: example_modes example_reports_safe)
  then obtain tcs where l: "tables_loop example_runtime example_config example_thresholds
        ORACLE_ORACLE example_awr example_awr_later [''load_profile''] = Inr tcs"
    and t: "table_comparisons res = tcs"
    by (auto simp: compare_reports_unfold example_modes example_thresholds_of selected_names_def
        example_common split: sum.splits)
  have y: "yields_outcomes example_runtime example_config example_thresholds ORACLE_ORACLE
             example_awr example_awr_later ''load_profile''"
    using example_same_outcomes
    by (auto simp: yields_outcomes_def example_both_present example_tables table_outcomes_def)
  from tables_loop_spec [OF l] y t
  have "map table_name (table_comparisons res) = [''load_profile'']" by simp
  with res have 5: "\<exists>res. compare_reports example_runtime example_config example_awr
      example_awr_later None = Inr res
      \<and> map table_name (table_comparisons res) = [''load_profile'']"
    by (intro exI [of _ res] conjI)
  from 1 2 3 4 5 example_compared(2) show ?thesis by blast
qed

end
